theory Spec2Isabelle
  imports Complex_Main "HOL-Library.Product_Lexorder" "HOL-Library.Multiset"
begin

section \<open>Linear evaluation on CIFAR: the utilities and the worker of evaluate\_cifar.py\<close>

text \<open>
  Python exceptions are values: a function that may raise returns \<open>py_error + 'a\<close>.
  Floating-point numbers are idealised as rationals (exact arithmetic), Python integers
  are \<open>int\<close>.
\<close>

datatype py_error = ValueError | RuntimeError | ZeroDivisionError | AssertionError | KeyError

subsection \<open>AverageMeter (lines 279--300)\<close>

record AverageMeter =
  name :: string
  fmt :: string
  val :: rat
  avg :: rat
  sum_meter :: rat
  count_meter :: int

definition reset :: "AverageMeter \<Rightarrow> AverageMeter" where
  "reset self = self\<lparr>val := 0, avg := 0, sum_meter := 0, count_meter := 0\<rparr>"

definition init_meter :: "string \<Rightarrow> string \<Rightarrow> AverageMeter" where
  \<comment> \<open>\<open>__init__\<close>: store name and fmt, then \<open>reset\<close>.\<close>
  "init_meter nm f =
     reset \<lparr>name = nm, fmt = f, val = 0, avg = 0, sum_meter = 0, count_meter = 0\<rparr>"

definition update :: "rat \<Rightarrow> int \<Rightarrow> AverageMeter \<Rightarrow> py_error + AverageMeter" where
  \<comment> \<open>\<open>self.sum / self.count\<close> raises ZeroDivisionError when the new count is 0.\<close>
  "update v n self =
     (let s = sum_meter self + v * of_int n;
          c = count_meter self + n
      in if c = 0 then Inl ZeroDivisionError
         else Inr (self\<lparr>val := v, sum_meter := s, count_meter := c, avg := s / of_int c\<rparr>))"

fun updates :: "(rat \<times> int) list \<Rightarrow> AverageMeter \<Rightarrow> py_error + AverageMeter" where
  "updates [] self = Inr self"
| "updates ((v, n) # rest) self =
     (case update v n self of Inl e \<Rightarrow> Inl e | Inr self' \<Rightarrow> updates rest self')"


subsection \<open>accuracy (lines 303--317)\<close>

text \<open>
  A 2-d tensor is its number of columns together with the list of its rows, each of that
  length. Class scores are rationals, labels and the entries of \<open>topk\<close> are Python
  integers.

  \<open>torch.topk\<close> (largest, sorted) returns for each row the indices of \<open>k\<close> largest scores,
  best first; which of several equal scores it returns, and in which order, is the
  library's choice. The function is therefore a parameter \<open>topk_impl\<close> of the model, and
  \<open>is_topk\<close> says what every choice satisfies. Two choices are written out: the lower index
  first among equal scores, and the higher index first.
\<close>

record tensor2 =
  ncols :: nat
  rows :: "rat list list"

definition is_topk :: "nat \<Rightarrow> rat list \<Rightarrow> nat list \<Rightarrow> bool" where
  "is_topk k row idx \<longleftrightarrow>
     length idx = k \<and> distinct idx \<and> (\<forall>i \<in> set idx. i < length row) \<and>
     sorted_wrt (\<lambda>a b. row ! b \<le> row ! a) idx \<and>
     (\<forall>c \<in> set [0..<length row]. c \<notin> set idx \<longrightarrow> (\<forall>i \<in> set idx. row ! c \<le> row ! i))"

definition topk_lowest_first :: "nat \<Rightarrow> rat list \<Rightarrow> nat list" where
  "topk_lowest_first k row = take k (sort_key (\<lambda>c. (- (row ! c), c)) [0..<length row])"

definition topk_highest_first :: "nat \<Rightarrow> rat list \<Rightarrow> nat list" where
  "topk_highest_first k row = take k (rev (sort_key (\<lambda>c. (row ! c, c)) [0..<length row]))"

definition tensor_topk ::
  "(nat \<Rightarrow> rat list \<Rightarrow> nat list) \<Rightarrow> int \<Rightarrow> tensor2 \<Rightarrow> py_error + nat list list" where
  \<comment> \<open>\<open>output.topk(maxk, 1, True, True)\<close>: k out of range raises RuntimeError.\<close>
  "tensor_topk topk_impl k m =
     (if k < 0 \<or> int (ncols m) < k then Inl RuntimeError
      else Inr (map (topk_impl (nat k)) (rows m)))"

definition tensor_t :: "nat \<Rightarrow> 'a list list \<Rightarrow> 'a list list" where
  \<comment> \<open>\<open>pred.t()\<close> of a tensor with \<open>c\<close> columns: row \<open>j\<close> of the result is column \<open>j\<close>.\<close>
  "tensor_t c m = map (\<lambda>j. map (\<lambda>r. r ! j) m) [0..<c]"

definition expand_target :: "nat \<Rightarrow> int list \<Rightarrow> py_error + int list" where
  \<comment> \<open>\<open>target.view(1, -1).expand_as(pred)\<close>: one row of labels, repeated for every row of
     \<open>pred\<close>; a single label is broadcast over the \<open>n\<close> columns; another length raises.\<close>
  "expand_target n target =
     (if length target = n then Inr target
      else if length target = 1 then Inr (replicate n (target ! 0))
      else Inl RuntimeError)"

definition py_slice_to :: "int \<Rightarrow> 'a list \<Rightarrow> 'a list" where
  \<comment> \<open>\<open>xs[:k]\<close>: a negative \<open>k\<close> counts from the end.\<close>
  "py_slice_to k xs =
     (if 0 \<le> k then take (nat k) xs else take (length xs - nat (- k)) xs)"

definition count_true :: "bool list list \<Rightarrow> nat" where
  \<comment> \<open>\<open>.reshape(-1).float().sum(0, keepdim=True)\<close>\<close>
  "count_true bs = length (filter (\<lambda>b. b) (concat bs))"

definition accuracy ::
  "(nat \<Rightarrow> rat list \<Rightarrow> nat list) \<Rightarrow> tensor2 \<Rightarrow> int list \<Rightarrow> int list \<Rightarrow> py_error + rat list" where
  "accuracy topk_impl output target topk =
     (if topk = [] then Inl ValueError
      else
        let maxk = Max (set topk);
            batch_size = length target
        in case tensor_topk topk_impl maxk output of
             Inl e \<Rightarrow> Inl e
           | Inr pred0 \<Rightarrow>
               let pred = tensor_t (nat maxk) pred0
               in case expand_target (length (rows output)) target of
                    Inl e \<Rightarrow> Inl e
                  | Inr tgt \<Rightarrow>
                      let correct = map (\<lambda>prow. map (\<lambda>(p, t). int p = t) (zip prow tgt)) pred
                      in if batch_size = 0 then Inl ZeroDivisionError
                         else Inr (map (\<lambda>k. of_nat (count_true (py_slice_to k correct))
                                              * (100 / of_nat batch_size)) topk))"

text \<open>
  Stated on the scores alone, there are two readings of ``label \<open>t\<close> is among the \<open>k\<close>
  highest-scoring classes of a row'' when scores are equal: fewer than \<open>k\<close> classes have a
  higher score than \<open>t\<close>, or fewer than \<open>k\<close> other classes have a score at least as high.
  They agree on a label whose score no other class of the row has (\<open>target_untied\<close>).
\<close>

definition among_k_highest :: "rat list \<Rightarrow> nat \<Rightarrow> int \<Rightarrow> bool" where
  "among_k_highest row k t \<longleftrightarrow>
     0 \<le> t \<and> nat t < length row \<and>
     length (filter (\<lambda>c. row ! nat t < row ! c) [0..<length row]) < k"

definition surely_among_k_highest :: "rat list \<Rightarrow> nat \<Rightarrow> int \<Rightarrow> bool" where
  "surely_among_k_highest row k t \<longleftrightarrow>
     0 \<le> t \<and> nat t < length row \<and>
     length (filter (\<lambda>c. c \<noteq> nat t \<and> row ! nat t \<le> row ! c) [0..<length row]) < k"

definition target_untied :: "rat list \<Rightarrow> int \<Rightarrow> bool" where
  "target_untied row t \<longleftrightarrow>
     (0 \<le> t \<and> nat t < length row \<longrightarrow>
        (\<forall>c \<in> set [0..<length row]. c \<noteq> nat t \<longrightarrow> row ! c \<noteq> row ! nat t))"

definition topk_accuracy ::
  "(rat list \<Rightarrow> nat \<Rightarrow> int \<Rightarrow> bool) \<Rightarrow> tensor2 \<Rightarrow> int list \<Rightarrow> nat \<Rightarrow> rat" where
  "topk_accuracy among output target k =
     100 * of_nat (length (filter (\<lambda>i. among (rows output ! i) k (target ! i))
                             [0..<length target]))
       / of_nat (length target)"


subsection \<open>The worker: data (main\_worker, lines 78--267)\<close>

text \<open>
  A tensor is its shape together with its entries; \<open>torch.equal\<close> is equality of both. A
  state\_dict is an ordered dictionary from tensor names to tensors. The operations of the
  framework that the script calls (the sampler behind \<open>normal_\<close>, the forward and backward
  pass, the optimizer and scheduler steps, the evaluation of a model on the validation and
  test loaders) and the files it reads are gathered in the record \<open>env\<close>; the script's own
  control flow is written out below. The validation and test loops (lines 221--238) are
  the field \<open>evaluate\<close>, which returns the four averages of their meters; the per-step
  log lines (205--215) are left out, so \<open>stdout\<close> and \<open>stats_file\<close> hold the epoch
  records only.
\<close>

record tensor =
  shape :: "nat list"
  entries :: "rat list"

type_synonym state_dict = "(string \<times> tensor) list"

datatype weights_mode = Finetune | Freeze

datatype module_mode = Train | Eval

record best_acc =
  top1 :: rat
  top5 :: rat

record ('o, 's) checkpoint =
  ckpt_epoch :: int
  ckpt_best_val_acc :: best_acc
  ckpt_best_test_acc :: best_acc
  ckpt_model :: state_dict
  ckpt_optimizer :: "nat list \<times> 'o"
  ckpt_scheduler :: 's

record epoch_stats =
  epoch :: int
  val_acc1 :: rat
  val_acc5 :: rat
  best_val_acc1 :: rat
  best_val_acc5 :: rat
  test_acc1 :: rat
  test_acc5 :: rat
  best_test_acc1 :: rat
  best_test_acc5 :: rat

record args =
  weights :: weights_mode
  epochs :: int
  rank :: int

record ('b, 'o, 's) env =
  named_parameters :: "string list"
  normal_sample :: "rat \<Rightarrow> rat \<Rightarrow> nat \<Rightarrow> rat"
  forward_buffer :: "'b \<Rightarrow> state_dict \<Rightarrow> string \<Rightarrow> tensor"
  sgd_param :: "'b \<Rightarrow> 'o \<Rightarrow> state_dict \<Rightarrow> string \<Rightarrow> tensor"
  sgd_state :: "'b \<Rightarrow> 'o \<Rightarrow> state_dict \<Rightarrow> 'o"
  scheduler_step :: "'s \<Rightarrow> 'o \<Rightarrow> 's \<times> 'o"
  train_loader :: "int \<Rightarrow> 'b list"
  evaluate :: "state_dict \<Rightarrow> rat \<times> rat \<times> rat \<times> rat"
  pretrained_file :: state_dict

record ('o, 's) worker =
  model :: state_dict
  optimizer :: 'o
  scheduler :: 's
  best_val_acc :: best_acc
  best_test_acc :: best_acc
  checkpoint_file :: "('o, 's) checkpoint option"
  stdout :: "epoch_stats list"
  stats_file :: "epoch_stats list"


subsection \<open>Loading the pretrained weights (lines 102--107)\<close>

definition missing_keys_of :: "state_dict \<Rightarrow> state_dict \<Rightarrow> string list" where
  "missing_keys_of m sd = filter (\<lambda>k. map_of sd k = None) (map fst m)"

definition unexpected_keys_of :: "state_dict \<Rightarrow> state_dict \<Rightarrow> string list" where
  "unexpected_keys_of m sd = filter (\<lambda>k. map_of m k = None) (map fst sd)"

definition copy_state :: "state_dict \<Rightarrow> state_dict \<Rightarrow> state_dict" where
  "copy_state m sd = map (\<lambda>(k, v). case map_of sd k of None \<Rightarrow> (k, v) | Some w \<Rightarrow> (k, w)) m"

definition size_mismatch :: "state_dict \<Rightarrow> state_dict \<Rightarrow> string list" where
  \<comment> \<open>the keys of the model whose tensor in \<open>sd\<close> has another shape\<close>
  "size_mismatch m sd =
     map fst (filter (\<lambda>(k, v). case map_of sd k of None \<Rightarrow> False
                                | Some w \<Rightarrow> shape w \<noteq> shape v) m)"

definition load_state_dict ::
  "bool \<Rightarrow> state_dict \<Rightarrow> state_dict \<Rightarrow> py_error + (state_dict \<times> string list \<times> string list)" where
  \<comment> \<open>\<open>model.load_state_dict(sd, strict)\<close>: a tensor of another shape raises RuntimeError;
     with \<open>strict\<close>, so does a missing or unexpected key.\<close>
  "load_state_dict strict m sd =
     (let missing_keys = missing_keys_of m sd;
          unexpected_keys = unexpected_keys_of m sd
      in if size_mismatch m sd \<noteq> []
            \<or> (strict \<and> (missing_keys \<noteq> [] \<or> unexpected_keys \<noteq> [])) then Inl RuntimeError
         else Inr (copy_state m sd, missing_keys, unexpected_keys))"

definition normal_init :: "('b, 'o, 's) env \<Rightarrow> rat \<Rightarrow> rat \<Rightarrow> tensor \<Rightarrow> tensor" where
  \<comment> \<open>\<open>t.normal_(mean, std)\<close>: every entry is replaced by a sample drawn for that mean and
     standard deviation\<close>
  "normal_init e mean std t = t\<lparr>entries := map (normal_sample e mean std) [0..<length (entries t)]\<rparr>"

definition zero_init :: "tensor \<Rightarrow> tensor" where
  \<comment> \<open>\<open>t.zero_()\<close>\<close>
  "zero_init t = t\<lparr>entries := map (\<lambda>x. 0) (entries t)\<rparr>"

definition init_fc :: "('b, 'o, 's) env \<Rightarrow> state_dict \<Rightarrow> state_dict" where
  \<comment> \<open>\<open>model.fc.weight.data.normal_(mean=0.0, std=0.01)\<close>, \<open>model.fc.bias.data.zero_()\<close>\<close>
  "init_fc e m =
     map (\<lambda>(k, v). if k = ''fc.weight'' then (k, normal_init e 0 (1 / 100) v)
                     else if k = ''fc.bias'' then (k, zero_init v) else (k, v)) m"

definition load_pretrained ::
  "('b, 'o, 's) env \<Rightarrow> state_dict \<Rightarrow> py_error + state_dict" where
  "load_pretrained e m =
     (case load_state_dict False m (pretrained_file e) of
        Inl err \<Rightarrow> Inl err
      | Inr (m1, missing_keys, unexpected_keys) \<Rightarrow>
          if \<not> (missing_keys = [''fc.weight'', ''fc.bias''] \<and> unexpected_keys = [])
          then Inl AssertionError
          else Inr (init_fc e m1))"

subsection \<open>Frozen weights and parameter groups (lines 108--124)\<close>

definition requires_grad :: "args \<Rightarrow> ('b, 'o, 's) env \<Rightarrow> string \<Rightarrow> bool" where
  \<comment> \<open>With \<open>freeze\<close>: \<open>model.requires_grad_(False)\<close>, then \<open>model.fc.requires_grad_(True)\<close>.\<close>
  "requires_grad a e k \<longleftrightarrow>
     k \<in> set (named_parameters e) \<and>
     (weights a = Freeze \<longrightarrow> k = ''fc.weight'' \<or> k = ''fc.bias'')"

definition classifier_parameters :: "('b, 'o, 's) env \<Rightarrow> string list" where
  "classifier_parameters e =
     filter (\<lambda>k. k = ''fc.weight'' \<or> k = ''fc.bias'') (named_parameters e)"

definition model_parameters :: "('b, 'o, 's) env \<Rightarrow> string list" where
  "model_parameters e =
     filter (\<lambda>k. \<not> (k = ''fc.weight'' \<or> k = ''fc.bias'')) (named_parameters e)"

definition param_groups :: "args \<Rightarrow> ('b, 'o, 's) env \<Rightarrow> string list list" where
  "param_groups a e =
     (if weights a = Finetune then [classifier_parameters e, model_parameters e]
      else [classifier_parameters e])"

subsection \<open>Resuming from a checkpoint (lines 127--140)\<close>

definition resume ::
  "args \<Rightarrow> ('b, 'o, 's) env \<Rightarrow> ('o, 's) checkpoint option \<Rightarrow>
     state_dict \<Rightarrow> 'o \<Rightarrow> 's \<Rightarrow> py_error + (int \<times> ('o, 's) worker)" where
  \<comment> \<open>Returns \<open>start_epoch\<close> and the worker's state. \<open>optimizer.load_state_dict\<close> raises
     ValueError when the saved parameter groups have other sizes than the optimizer's.\<close>
  "resume a e file m opt sched =
     (case file of
        None \<Rightarrow>
          Inr (0, \<lparr>model = m, optimizer = opt, scheduler = sched,
                   best_val_acc = \<lparr>top1 = 0, top5 = 0\<rparr>,
                   best_test_acc = \<lparr>top1 = 0, top5 = 0\<rparr>,
                   checkpoint_file = file, stdout = [], stats_file = []\<rparr>)
      | Some ckpt \<Rightarrow>
          (case load_state_dict True m (ckpt_model ckpt) of
             Inl err \<Rightarrow> Inl err
           | Inr (m1, _, _) \<Rightarrow>
               if fst (ckpt_optimizer ckpt) \<noteq> map length (param_groups a e) then Inl ValueError
               else Inr (ckpt_epoch ckpt,
                         \<lparr>model = m1, optimizer = snd (ckpt_optimizer ckpt),
                          scheduler = ckpt_scheduler ckpt,
                          best_val_acc = ckpt_best_val_acc ckpt,
                          best_test_acc = ckpt_best_test_acc ckpt,
                          checkpoint_file = file, stdout = [], stats_file = []\<rparr>)))"

subsection \<open>One epoch (lines 190--267)\<close>

definition train_mode :: "args \<Rightarrow> module_mode" where
  \<comment> \<open>lines 192--197; \<open>weights\<close> has no third value, so \<open>assert False\<close> is not reached\<close>
  "train_mode a = (case weights a of Finetune \<Rightarrow> Train | Freeze \<Rightarrow> Eval)"

definition forward :: "('b, 'o, 's) env \<Rightarrow> module_mode \<Rightarrow> 'b \<Rightarrow> state_dict \<Rightarrow> state_dict" where
  \<comment> \<open>\<open>model(images)\<close>: in train mode the pass rewrites the buffers (the entries of the
     state\_dict that are not parameters); in eval mode it writes nothing.\<close>
  "forward e md b m =
     (case md of
        Eval \<Rightarrow> m
      | Train \<Rightarrow> map (\<lambda>(k, v). if k \<in> set (named_parameters e) then (k, v)
                                else (k, forward_buffer e b m k)) m)"

definition optimizer_step ::
  "args \<Rightarrow> ('b, 'o, 's) env \<Rightarrow> 'b \<Rightarrow> state_dict \<times> 'o \<Rightarrow> state_dict \<times> 'o" where
  \<comment> \<open>\<open>loss.backward(); optimizer.step()\<close>: the step writes the parameters of its groups
     that have a gradient.\<close>
  "optimizer_step a e b mo =
     (let m = fst mo; opt = snd mo
      in (map (\<lambda>(k, v). if k \<in> set (concat (param_groups a e)) \<and> requires_grad a e k
                         then (k, sgd_param e b opt m k) else (k, v)) m,
          sgd_state e b opt m))"

definition train_step ::
  "args \<Rightarrow> ('b, 'o, 's) env \<Rightarrow> 'b \<Rightarrow> state_dict \<times> 'o \<Rightarrow> state_dict \<times> 'o" where
  "train_step a e b mo = optimizer_step a e b (forward e (train_mode a) b (fst mo), snd mo)"

definition train_epoch ::
  "args \<Rightarrow> ('b, 'o, 's) env \<Rightarrow> int \<Rightarrow> state_dict \<times> 'o \<Rightarrow> state_dict \<times> 'o" where
  "train_epoch a e ep mo = fold (train_step a e) (train_loader e ep) mo"

definition update_best ::
  "rat \<times> rat \<times> rat \<times> rat \<Rightarrow> best_acc \<times> best_acc \<Rightarrow> best_acc \<times> best_acc" where
  \<comment> \<open>lines 240--246, on (val\_top1.avg, val\_top5.avg, test\_top1.avg, test\_top5.avg)\<close>
  "update_best accs bests =
     (case accs of (val_top1, val_top5, test_top1, test_top5) \<Rightarrow>
        let bv = fst bests; bt = snd bests;
            bv1 = bv\<lparr>top5 := max (top5 bv) val_top5\<rparr>
        in if val_top1 > top1 bv1
           then (bv1\<lparr>top1 := val_top1\<rparr>,
                 bt\<lparr>top1 := max (top1 bt) test_top1, top5 := max (top5 bt) test_top5\<rparr>)
           else (bv1, bt))"

definition make_stats :: "int \<Rightarrow> rat \<times> rat \<times> rat \<times> rat \<Rightarrow> best_acc \<times> best_acc \<Rightarrow> epoch_stats" where
  \<comment> \<open>lines 249--251\<close>
  "make_stats ep accs bests =
     (case accs of (val_top1, val_top5, test_top1, test_top5) \<Rightarrow>
        \<lparr>epoch = ep,
         val_acc1 = val_top1, val_acc5 = val_top5,
         best_val_acc1 = top1 (fst bests), best_val_acc5 = top5 (snd bests),
         test_acc1 = test_top1, test_acc5 = test_top5,
         best_test_acc1 = top1 (snd bests), best_test_acc5 = top5 (snd bests)\<rparr>)"

definition evaluate_and_report ::
  "('b, 'o, 's) env \<Rightarrow> int \<Rightarrow> ('o, 's) worker \<Rightarrow> ('o, 's) worker" where
  \<comment> \<open>lines 219--253, rank 0 only\<close>
  "evaluate_and_report e ep w =
     (let accs = evaluate e (model w);
          bests = update_best accs (best_val_acc w, best_test_acc w);
          stats = make_stats ep accs bests
      in w\<lparr>best_val_acc := fst bests, best_test_acc := snd bests,
            stdout := stdout w @ [stats], stats_file := stats_file w @ [stats]\<rparr>)"

fun sanity_check :: "state_dict \<Rightarrow> state_dict \<Rightarrow> py_error + unit" where
  \<comment> \<open>lines 257--260: \<open>model_state_dict[k]\<close> raises KeyError on an absent key\<close>
  "sanity_check model_state_dict [] = Inr ()"
| "sanity_check model_state_dict ((k, v) # reference) =
     (case map_of model_state_dict k of
        None \<Rightarrow> Inl KeyError
      | Some w \<Rightarrow> if w = v then sanity_check model_state_dict reference
                  else Inl AssertionError)"

definition save_checkpoint ::
  "args \<Rightarrow> ('b, 'o, 's) env \<Rightarrow> int \<Rightarrow> ('o, 's) worker \<Rightarrow> ('o, 's) worker" where
  \<comment> \<open>lines 263--267, rank 0 only\<close>
  "save_checkpoint a e ep w =
     w\<lparr>checkpoint_file :=
          Some \<lparr>ckpt_epoch = ep + 1,
                ckpt_best_val_acc = best_val_acc w, ckpt_best_test_acc = best_test_acc w,
                ckpt_model = model w,
                ckpt_optimizer = (map length (param_groups a e), optimizer w),
                ckpt_scheduler = scheduler w\<rparr>\<rparr>"

definition run_epoch ::
  "args \<Rightarrow> ('b, 'o, 's) env \<Rightarrow> int \<Rightarrow> ('o, 's) worker \<Rightarrow> py_error + ('o, 's) worker" where
  "run_epoch a e ep w =
     (let mo = train_epoch a e ep (model w, optimizer w);
          w1 = w\<lparr>model := fst mo, optimizer := snd mo\<rparr>;
          w2 = (if rank a = 0 then evaluate_and_report e ep w1 else w1)
      in case (if weights a = Freeze then sanity_check (model w2) (pretrained_file e)
               else Inr ()) of
           Inl err \<Rightarrow> Inl err
         | Inr _ \<Rightarrow>
             let so = scheduler_step e (scheduler w2) (optimizer w2);
                 w3 = w2\<lparr>scheduler := fst so, optimizer := snd so\<rparr>
             in Inr (if rank a = 0 then save_checkpoint a e ep w3 else w3))"

fun run_epochs ::
  "args \<Rightarrow> ('b, 'o, 's) env \<Rightarrow> int list \<Rightarrow> ('o, 's) worker \<Rightarrow> py_error + ('o, 's) worker" where
  "run_epochs a e [] w = Inr w"
| "run_epochs a e (ep # eps) w =
     (case run_epoch a e ep w of Inl err \<Rightarrow> Inl err | Inr w' \<Rightarrow> run_epochs a e eps w')"

definition epoch_range :: "int \<Rightarrow> int \<Rightarrow> int list" where
  \<comment> \<open>\<open>range(start_epoch, args.epochs)\<close>\<close>
  "epoch_range start_epoch n = [start_epoch..n - 1]"

definition main_worker ::
  "args \<Rightarrow> ('b, 'o, 's) env \<Rightarrow> ('o, 's) checkpoint option \<Rightarrow>
     state_dict \<Rightarrow> 'o \<Rightarrow> 's \<Rightarrow> nat \<Rightarrow> py_error + ('o, 's) worker" where
  \<comment> \<open>The worker started on a freshly built model \<open>m0\<close>, optimizer state \<open>opt0\<close> and
     scheduler state \<open>sched0\<close>, with \<open>file\<close> the content of checkpoint.pth. The process
     may be stopped between two epochs: \<open>completed\<close> bounds the number of epochs it runs.\<close>
  "main_worker a e file m0 opt0 sched0 completed =
     (case load_pretrained e m0 of
        Inl err \<Rightarrow> Inl err
      | Inr m \<Rightarrow>
          (case resume a e file m opt0 sched0 of
             Inl err \<Rightarrow> Inl err
           | Inr (start_epoch, w) \<Rightarrow>
               run_epochs a e (take completed (epoch_range start_epoch (epochs a))) w))"




subsection \<open>The train/validation split (lines 168--179)\<close>

text \<open>
  \<open>random.Random(seed).shuffle\<close> walks the list from its last position down to position 1
  and swaps each position \<open>i\<close> with a position drawn below \<open>i + 1\<close>. The generator is a
  parameter: \<open>draw g n\<close> returns a number and the next generator state; the number is
  reduced below \<open>n\<close>, as the library's \<open>_randbelow\<close> guarantees. \<open>seeded 10\<close> is the state
  after seeding with 10.

  \<open>int(train_percent * len / 100)\<close> and \<open>int(0.1 * num_train)\<close> are computed in floating
  point and truncated; on the sizes in question (the percentages are 100, 10 or 1) they are
  the integer quotients by 100 and by 10.
\<close>

definition randbelow :: "('g \<Rightarrow> nat \<Rightarrow> nat \<times> 'g) \<Rightarrow> 'g \<Rightarrow> nat \<Rightarrow> nat \<times> 'g" where
  "randbelow draw g n = (case draw g n of (r, g') \<Rightarrow> (r mod n, g'))"

fun shuffle_from :: "('g \<Rightarrow> nat \<Rightarrow> nat \<times> 'g) \<Rightarrow> 'g \<Rightarrow> nat \<Rightarrow> nat list \<Rightarrow> nat list" where
  "shuffle_from draw g 0 x = x"
| "shuffle_from draw g (Suc i) x =
     (case randbelow draw g (Suc i + 1) of
        (j, g') \<Rightarrow> shuffle_from draw g' i (x[Suc i := x ! j, j := x ! Suc i]))"

definition shuffle :: "('g \<Rightarrow> nat \<Rightarrow> nat \<times> 'g) \<Rightarrow> 'g \<Rightarrow> nat list \<Rightarrow> nat list" where
  "shuffle draw g x = shuffle_from draw g (length x - 1) x"

definition py_slice_from :: "int \<Rightarrow> 'a list \<Rightarrow> 'a list" where
  \<comment> \<open>\<open>xs[k:]\<close>: a negative \<open>k\<close> counts from the end.\<close>
  "py_slice_from k xs =
     (if 0 \<le> k then drop (nat k) xs else drop (length xs - nat (- k)) xs)"

definition split_train_val ::
  "('g \<Rightarrow> nat \<Rightarrow> nat \<times> 'g) \<Rightarrow> (int \<Rightarrow> 'g) \<Rightarrow> int \<Rightarrow> nat \<Rightarrow> nat list \<times> nat list" where
  \<comment> \<open>Returns \<open>(train_idx, val_idx)\<close> for a dataset of \<open>len\<close> items.\<close>
  "split_train_val draw seeded train_percent len =
     (let seed = 10;
          num_train = (train_percent * int len) div 100;
          train_idx = shuffle draw (seeded seed) [0..<len];
          num_val = num_train div 10;
          num_train = num_train - num_val;
          val_idx = py_slice_from num_train train_idx;
          train_idx = py_slice_to num_train train_idx
      in (train_idx, val_idx))"

subsection \<open>Signals (lines 68--70 and 270--276)\<close>

datatype signal = SIGUSR1 | SIGTERM

datatype handler = Handle_sigusr1 | Handle_sigterm

datatype effect = System string | Exit

definition install_handlers ::
  "(string \<rightharpoonup> string) \<Rightarrow> (signal \<rightharpoonup> handler) \<Rightarrow> (signal \<rightharpoonup> handler)" where
  \<comment> \<open>lines 68--70 of \<open>main\<close>\<close>
  "install_handlers environ table =
     (if ''SLURM_JOB_ID'' \<in> dom environ
      then table(SIGUSR1 \<mapsto> Handle_sigusr1, SIGTERM \<mapsto> Handle_sigterm)
      else table)"

definition handle_sigusr1 :: "(string \<rightharpoonup> string) \<Rightarrow> effect list" where
  \<comment> \<open>\<open>os.getenv\<close> of an unset variable is \<open>None\<close>, formatted as the text None\<close>
  "handle_sigusr1 environ =
     [System (''scontrol requeue '' @ (case environ ''SLURM_JOB_ID'' of
                                         None \<Rightarrow> ''None'' | Some job \<Rightarrow> job)),
      Exit]"

definition handle_sigterm :: "(string \<rightharpoonup> string) \<Rightarrow> effect list" where
  "handle_sigterm environ = []"

definition run_handler :: "handler \<Rightarrow> (string \<rightharpoonup> string) \<Rightarrow> effect list" where
  "run_handler h environ =
     (case h of Handle_sigusr1 \<Rightarrow> handle_sigusr1 environ
              | Handle_sigterm \<Rightarrow> handle_sigterm environ)"

definition receive :: "(signal \<rightharpoonup> handler) \<Rightarrow> (string \<rightharpoonup> string) \<Rightarrow> signal \<Rightarrow> effect list option" where
  \<comment> \<open>What the script does on a signal: \<open>None\<close> when it installed no handler for it (the
     default action of the system applies).\<close>
  "receive table environ sig = map_option (\<lambda>h. run_handler h environ) (table sig)"


subsection \<open>A small instance\<close>

text \<open>
  A three-parameter model with one buffer, one-entry tensors and a two-batch loader; it is
  the concrete input of the evaluations below.
\<close>

definition vec1 :: "rat \<Rightarrow> tensor" where
  "vec1 x = \<lparr>shape = [1], entries = [x]\<rparr>"

definition demo_env :: "(unit, nat, nat) env" where
  "demo_env = \<lparr>named_parameters = [''conv1.weight'', ''fc.weight'', ''fc.bias''],
      normal_sample = (\<lambda>mean std i. mean + 3 * std),
      forward_buffer = (\<lambda>b m k. vec1 99),
      sgd_param = (\<lambda>b opt m k. vec1 (5 + of_nat opt)),
      sgd_state = (\<lambda>b opt m. opt + 1), scheduler_step = (\<lambda>s opt. (s + 1, opt)),
      train_loader = (\<lambda>ep. [(), ()]), evaluate = (\<lambda>m. (10, 50, 5, 40)),
      pretrained_file = [(''conv1.weight'', vec1 1), (''bn1.running_mean'', vec1 2)]\<rparr>"

definition demo_model :: state_dict where
  "demo_model = [(''conv1.weight'', vec1 0), (''bn1.running_mean'', vec1 0),
                 (''fc.weight'', vec1 11), (''fc.bias'', vec1 12)]"

definition demo_args :: "weights_mode \<Rightarrow> args" where
  "demo_args w = \<lparr>weights = w, epochs = 3, rank = 0\<rparr>"

definition demo_env_varying :: "(unit, nat, nat) env" where
  \<comment> \<open>the same instance with accuracies that depend on the classifier's weight\<close>
  "demo_env_varying = demo_env\<lparr>evaluate :=
      (\<lambda>m. case map_of m ''fc.weight'' of
              None \<Rightarrow> (0, 0, 0, 0)
            | Some t \<Rightarrow> (let x = sum_list (entries t)
                         in (10 * \<bar>x - 8\<bar>, 100 - x, x, 50 + x)))\<rparr>"


subsection \<open>Facts about AverageMeter\<close>

lemma updates_general:
  assumes "\<forall>p \<in> set calls. 1 \<le> snd p" and "0 \<le> count_meter m"
  shows "\<exists>m'. updates calls m = Inr m'
           \<and> sum_meter m' = sum_meter m + (\<Sum>p\<leftarrow>calls. fst p * of_int (snd p))
           \<and> count_meter m' = count_meter m + (\<Sum>p\<leftarrow>calls. snd p)
           \<and> (calls \<noteq> [] \<longrightarrow> 0 < count_meter m'
                 \<and> avg m' = sum_meter m' / of_int (count_meter m')
                 \<and> val m' = fst (last calls))
           \<and> (calls = [] \<longrightarrow> m' = m)"
  using assms
proof (induction calls arbitrary: m)
  case Nil
  then show ?case by simp
next
  case (Cons p calls)
  obtain v n where p: "p = (v, n)" by (cases p)
  from Cons.prems p have n: "1 \<le> n" by simp
  define m1 where "m1 = m\<lparr>val := v, sum_meter := sum_meter m + v * of_int n,
      count_meter := count_meter m + n,
      avg := (sum_meter m + v * of_int n) / of_int (count_meter m + n)\<rparr>"
  from n Cons.prems(2) have pos: "0 < count_meter m + n" by linarith
  then have step: "update v n m = Inr m1"
    by (simp add: update_def m1_def Let_def)
  have c1: "0 \<le> count_meter m1" using pos by (simp add: m1_def)
  from Cons.prems(1) have rest: "\<forall>q \<in> set calls. 1 \<le> snd q" by simp
  from Cons.IH [OF rest c1] obtain m' where
    run: "updates calls m1 = Inr m'"
    and s: "sum_meter m' = sum_meter m1 + (\<Sum>q\<leftarrow>calls. fst q * of_int (snd q))"
    and c: "count_meter m' = count_meter m1 + (\<Sum>q\<leftarrow>calls. snd q)"
    and ne: "calls \<noteq> [] \<longrightarrow> 0 < count_meter m'
                 \<and> avg m' = sum_meter m' / of_int (count_meter m')
                 \<and> val m' = fst (last calls)"
    and e: "calls = [] \<longrightarrow> m' = m1"
    by blast
  have "updates (p # calls) m = Inr m'" using p step run by simp
  moreover have "sum_meter m' = sum_meter m + (\<Sum>q\<leftarrow>p # calls. fst q * of_int (snd q))"
    using s p by (simp add: m1_def)
  moreover have "count_meter m' = count_meter m + (\<Sum>q\<leftarrow>p # calls. snd q)"
    using c p by (simp add: m1_def)
  moreover have "0 < count_meter m' \<and> avg m' = sum_meter m' / of_int (count_meter m')
                 \<and> val m' = fst (last (p # calls))"
  proof (cases "calls = []")
    case True
    with e have "m' = m1" by simp
    then show ?thesis using True p pos by (simp add: m1_def)
  next
    case False
    with ne show ?thesis by simp
  qed
  ultimately show ?case by simp
qed

text \<open>
  C2. After \<open>reset\<close> and any sequence of \<open>update (v\<^sub>i, n\<^sub>i)\<close> calls with every
  \<open>n\<^sub>i \<ge> 1\<close>, no call raises and the meter holds \<open>sum = \<Sum> v\<^sub>i * n\<^sub>i\<close>,
  \<open>count = \<Sum> n\<^sub>i\<close>, \<open>avg = sum / count\<close> (with \<open>count > 0\<close> once a call was made) and
  \<open>val\<close> is the last \<open>v\<close>; \<open>reset\<close> sets \<open>val\<close>, \<open>avg\<close>, \<open>sum\<close> and \<open>count\<close> to 0.
\<close>

theorem average_meter_running_average:
  assumes "\<forall>p \<in> set calls. 1 \<le> snd p"
  shows "val (reset m) = 0 \<and> avg (reset m) = 0
       \<and> sum_meter (reset m) = 0 \<and> count_meter (reset m) = 0
       \<and> (\<exists>m'. updates calls (reset m) = Inr m'
           \<and> sum_meter m' = (\<Sum>p\<leftarrow>calls. fst p * of_int (snd p))
           \<and> count_meter m' = (\<Sum>p\<leftarrow>calls. snd p)
           \<and> avg m' = sum_meter m' / of_int (count_meter m')
           \<and> (calls \<noteq> [] \<longrightarrow> 0 < count_meter m' \<and> val m' = fst (last calls)))"
proof -
  have r: "val (reset m) = 0 \<and> avg (reset m) = 0
       \<and> sum_meter (reset m) = 0 \<and> count_meter (reset m) = 0"
    by (simp add: reset_def)
  then have "0 \<le> count_meter (reset m)" by simp
  from updates_general [OF assms this] obtain m' where
    run: "updates calls (reset m) = Inr m'"
    and s: "sum_meter m' = sum_meter (reset m) + (\<Sum>p\<leftarrow>calls. fst p * of_int (snd p))"
    and c: "count_meter m' = count_meter (reset m) + (\<Sum>p\<leftarrow>calls. snd p)"
    and ne: "calls \<noteq> [] \<longrightarrow> 0 < count_meter m'
                 \<and> avg m' = sum_meter m' / of_int (count_meter m')
                 \<and> val m' = fst (last calls)"
    and e: "calls = [] \<longrightarrow> m' = reset m"
    by blast
  have "avg m' = sum_meter m' / of_int (count_meter m')"
  proof (cases "calls = []")
    case True
    with e r show ?thesis by simp
  next
    case False
    with ne show ?thesis by simp
  qed
  with r run s c ne show ?thesis by simp
qed

theorem average_meter_running_average_witness:
  "\<exists>m'. updates [(50, 2), (100, 6)] (init_meter ''ValAcc@1'' '':f'') = Inr m'
     \<and> sum_meter m' = 700 \<and> count_meter m' = 8 \<and> avg m' = 175 / 2 \<and> val m' = 100"
proof -
  have h: "\<forall>p \<in> set [(50::rat, 2::int), (100, 6)]. 1 \<le> snd p" by simp
  have i: "reset (init_meter ''ValAcc@1'' '':f'') = init_meter ''ValAcc@1'' '':f''"
    by (simp add: init_meter_def reset_def)
  show ?thesis
    using average_meter_running_average [OF h, of "init_meter ''ValAcc@1'' '':f''"]
    unfolding i by auto
qed


subsection \<open>Facts about accuracy\<close>

lemma length_filter_upt_card: "length (filter P [0..<n]) = card {i. i < n \<and> P i}"
proof -
  have "distinct (filter P [0..<n])" by simp
  then have "card (set (filter P [0..<n])) = length (filter P [0..<n])"
    by (rule distinct_card)
  moreover have "set (filter P [0..<n]) = {i. i < n \<and> P i}" by auto
  ultimately show ?thesis by simp
qed


lemma sorted_keys_lowest_first:
  "sorted_wrt (\<lambda>a b. row ! b \<le> row ! a)
     (sort_key (\<lambda>c. (- (row ! c), c)) [0..<length (row :: rat list)])"
proof -
  let ?key = "\<lambda>c. (- (row ! c), c)"
  let ?xs = "sort_key ?key [0..<length row]"
  have "sorted (map ?key ?xs)" by (rule sorted_sort_key)
  then have "sorted_wrt (\<lambda>a b. ?key a \<le> ?key b) ?xs"
    by (simp add: sorted_map)
  moreover have "?key a \<le> ?key b \<Longrightarrow> row ! b \<le> row ! a" for a b
    by (auto simp: less_eq_prod_def)
  ultimately show ?thesis by (rule sorted_wrt_mono_rel [rotated]) blast
qed


lemma is_topk_take:
  fixes row :: "rat list"
  assumes s: "sorted_wrt (\<lambda>a b. row ! b \<le> row ! a) xs"
    and d: "distinct xs" and st: "set xs = {0..<length row}" and k: "k \<le> length row"
  shows "is_topk k row (take k xs)"
proof -
  have len: "length xs = length row"
    using distinct_card [OF d] st by simp
  have 1: "length (take k xs) = k" using k len by simp
  have 2: "distinct (take k xs)" using d by (rule distinct_take)
  have 3: "\<forall>i \<in> set (take k xs). i < length row"
    using st by (auto dest: in_set_takeD)
  have 4: "sorted_wrt (\<lambda>a b. row ! b \<le> row ! a) (take k xs)"
    using s by (rule sorted_wrt_take)
  have 5: "\<forall>c \<in> set [0..<length row]. c \<notin> set (take k xs)
             \<longrightarrow> (\<forall>i \<in> set (take k xs). row ! c \<le> row ! i)"
  proof (intro ballI impI)
    fix c i assume c: "c \<in> set [0..<length row]" and nc: "c \<notin> set (take k xs)"
      and i: "i \<in> set (take k xs)"
    from c st have "c \<in> set xs" by simp
    then have "c \<in> set (take k xs) \<union> set (drop k xs)"
      by (metis append_take_drop_id set_append)
    with nc have cd: "c \<in> set (drop k xs)" by simp
    from s have "sorted_wrt (\<lambda>a b. row ! b \<le> row ! a) (take k xs @ drop k xs)" by simp
    then show "row ! c \<le> row ! i" using i cd unfolding sorted_wrt_append by blast
  qed
  from 1 2 3 4 5 show ?thesis unfolding is_topk_def by blast
qed

lemma is_topk_lowest_first:
  "k \<le> length row \<Longrightarrow> is_topk k row (topk_lowest_first k row)"
  unfolding topk_lowest_first_def
  by (rule is_topk_take [OF sorted_keys_lowest_first]) simp_all


lemma topk_prefix_dominates:
  assumes v: "is_topk m row idx" and j: "j \<le> m"
    and i: "i \<in> set (take j idx)" and c: "c < length row" and nc: "c \<notin> set (take j idx)"
  shows "row ! c \<le> row ! i"
proof (cases "c \<in> set idx")
  case False
  from i have "i \<in> set idx" by (rule in_set_takeD)
  with v False c show ?thesis unfolding is_topk_def by auto
next
  case True
  from v have len: "length idx = m"
    and srt: "sorted_wrt (\<lambda>a b. row ! b \<le> row ! a) idx" unfolding is_topk_def by blast+
  from True obtain q where q: "q < length idx" and cq: "idx ! q = c"
    by (auto simp: in_set_conv_nth)
  from i obtain p where p: "p < j" "p < length idx" and ip: "idx ! p = i"
    by (auto simp: in_set_conv_nth)
  have "\<not> q < j"
  proof
    assume "q < j"
    with q cq have "c \<in> set (take j idx)"
      by (auto simp: in_set_conv_nth intro!: exI [of _ q])
    with nc show False by simp
  qed
  with p have "p < q" by simp
  with srt q have "row ! (idx ! q) \<le> row ! (idx ! p)"
    by (simp add: sorted_wrt_iff_nth_less)
  then show ?thesis by (simp add: cq ip)
qed

lemma topk_member_iff:
  assumes v: "is_topk m row idx" and j: "j \<le> m" and u: "target_untied row t"
  shows "t \<in> int ` set (take j idx) \<longleftrightarrow> among_k_highest row j t"
proof
  let ?S = "set (take j idx)"
  from v have len: "length idx = m" and d: "distinct idx"
    and rng: "\<forall>i \<in> set idx. i < length row" unfolding is_topk_def by blast+
  have cardS: "card ?S = j"
    using distinct_card [OF distinct_take [OF d, of j]] len j by simp
  assume "t \<in> int ` ?S"
  then obtain c0 where t: "t = int c0" and c0: "c0 \<in> ?S" by blast
  from c0 rng have c0n: "c0 < length row" by (auto dest: in_set_takeD)
  let ?H = "{c. c < length row \<and> row ! c0 < row ! c}"
  have "?H \<subseteq> ?S - {c0}"
  proof
    fix c assume "c \<in> ?H"
    then have cn: "c < length row" and gt: "row ! c0 < row ! c" by simp_all
    have "c \<in> ?S"
    proof (rule ccontr)
      assume "c \<notin> ?S"
      from topk_prefix_dominates [OF v j c0 cn this] gt show False by simp
    qed
    moreover from gt have "c \<noteq> c0" by auto
    ultimately show "c \<in> ?S - {c0}" by simp
  qed
  then have "card ?H \<le> card (?S - {c0})" by (intro card_mono) simp_all
  also have "\<dots> = j - 1" using c0 cardS by simp
  also have "\<dots> < j" using c0 cardS by (cases j) auto
  finally have "length (filter (\<lambda>c. row ! c0 < row ! c) [0..<length row]) < j"
    by (simp add: length_filter_upt_card)
  then show "among_k_highest row j t"
    using t c0n by (simp add: among_k_highest_def)
next
  let ?S = "set (take j idx)"
  from v have len: "length idx = m" and d: "distinct idx"
    and rng: "\<forall>i \<in> set idx. i < length row" unfolding is_topk_def by blast+
  have cardS: "card ?S = j"
    using distinct_card [OF distinct_take [OF d, of j]] len j by simp
  assume a: "among_k_highest row j t"
  define c0 where "c0 = nat t"
  from a have t0: "0 \<le> t" and t: "t = int c0" and c0n: "c0 < length row"
    and cnt: "length (filter (\<lambda>c. row ! c0 < row ! c) [0..<length row]) < j"
    by (simp_all add: among_k_highest_def c0_def)
  let ?H = "{c. c < length row \<and> row ! c0 < row ! c}"
  from cnt have cardH: "card ?H < j" by (simp add: length_filter_upt_card)
  from u t0 c0n have unt: "\<And>c. c < length row \<Longrightarrow> c \<noteq> c0 \<Longrightarrow> row ! c \<noteq> row ! c0"
    by (simp add: target_untied_def c0_def)
  have "c0 \<in> ?S"
  proof (rule ccontr)
    assume nc: "c0 \<notin> ?S"
    have "?S \<subseteq> ?H"
    proof
      fix i assume i: "i \<in> ?S"
      from i rng have inn: "i < length row" by (auto dest: in_set_takeD)
      from i nc have "i \<noteq> c0" by auto
      with unt [OF inn] have "row ! i \<noteq> row ! c0" by simp
      moreover from topk_prefix_dominates [OF v j i c0n nc] have "row ! c0 \<le> row ! i" .
      ultimately have "row ! c0 < row ! i" by simp
      with inn show "i \<in> ?H" by simp
    qed
    then have "card ?S \<le> card ?H" by (intro card_mono) simp_all
    with cardS cardH show False by simp
  qed
  then show "t \<in> int ` ?S" using t by blast
qed

lemma surely_among_iff:
  assumes u: "target_untied row t"
  shows "surely_among_k_highest row k t = among_k_highest row k t"
proof (cases "0 \<le> t \<and> nat t < length row")
  case False
  then show ?thesis by (auto simp: surely_among_k_highest_def among_k_highest_def)
next
  case True
  with u have unt: "\<And>c. c < length row \<Longrightarrow> c \<noteq> nat t \<Longrightarrow> row ! c \<noteq> row ! nat t"
    by (simp add: target_untied_def)
  have "filter (\<lambda>c. c \<noteq> nat t \<and> row ! nat t \<le> row ! c) [0..<length row]
          = filter (\<lambda>c. row ! nat t < row ! c) [0..<length row]"
  proof (rule filter_cong [OF refl])
    fix c assume "c \<in> set [0..<length row]"
    then have cn: "c < length row" by simp
    show "(c \<noteq> nat t \<and> row ! nat t \<le> row ! c) = (row ! nat t < row ! c)"
      using unt [OF cn] by auto
  qed
  then show ?thesis by (simp only: surely_among_k_highest_def among_k_highest_def)
qed

lemma count_true_sum_list: "count_true bs = (\<Sum>r\<leftarrow>bs. length (filter (\<lambda>b. b) r))"
  by (induction bs) (simp_all add: count_true_def)

lemma card_as_sum: "card {i. i < (n::nat) \<and> P i} = (\<Sum>i<n. if P i then 1 else 0)"
proof -
  have "{i. i < n \<and> P i} = {i \<in> {..<n}. P i}" by auto
  then have "card {i. i < n \<and> P i} = sum (\<lambda>x. 1) {i \<in> {..<n}. P i}" by simp
  also have "\<dots> = (\<Sum>i<n. if P i then 1 else 0)"
    by (rule sum.inter_filter) simp
  finally show ?thesis .
qed

lemma card_swap:
  "(\<Sum>j<(k::nat). card {i. i < (n::nat) \<and> Q i j}) = (\<Sum>i<n. card {j. j < k \<and> Q i j})"
proof -
  have "(\<Sum>j<k. card {i. i < n \<and> Q i j}) = (\<Sum>j<k. \<Sum>i<n. if Q i j then 1 else 0)"
    by (simp only: card_as_sum)
  also have "\<dots> = (\<Sum>i<n. \<Sum>j<k. if Q i j then 1 else 0)"
    by (rule sum.swap)
  also have "\<dots> = (\<Sum>i<n. card {j. j < k \<and> Q i j})"
    by (simp only: card_as_sum)
  finally show ?thesis .
qed

lemma card_unique_position:
  assumes d: "distinct r" and k: "k \<le> length r"
  shows "card {j. j < k \<and> int (r ! j) = t} = (if t \<in> int ` set (take k r) then 1 else 0)"
proof (cases "t \<in> int ` set (take k r)")
  case True
  then obtain j where j: "j < k" and tj: "int (r ! j) = t"
    using k by (auto simp: in_set_conv_nth)
  have "{j'. j' < k \<and> int (r ! j') = t} = {j}"
  proof (intro set_eqI iffI)
    fix j' assume "j' \<in> {j'. j' < k \<and> int (r ! j') = t}"
    then have j': "j' < k" and "int (r ! j') = t" by simp_all
    with tj have "r ! j' = r ! j" by simp
    with d j j' k have "j' = j" by (simp add: nth_eq_iff_index_eq)
    then show "j' \<in> {j}" by simp
  next
    fix j' assume "j' \<in> {j}" with j tj show "j' \<in> {j'. j' < k \<and> int (r ! j') = t}" by simp
  qed
  with True show ?thesis by simp
next
  case False
  have "{j. j < k \<and> int (r ! j) = t} = {}"
  proof (rule ccontr)
    assume "{j. j < k \<and> int (r ! j) = t} \<noteq> {}"
    then obtain j where j: "j < k" and tj: "int (r ! j) = t" by auto
    from j k have "r ! j \<in> set (take k r)"
      by (auto simp: in_set_conv_nth intro!: exI [of _ j])
    with tj False show False by auto
  qed
  with False show ?thesis by simp
qed

lemma correct_count:
  assumes rows: "\<forall>r \<in> set pred0. length r = m \<and> distinct r"
    and len: "length tgt = length pred0"
    and k: "k \<le> m"
  shows "count_true (take k (map (\<lambda>prow. map (\<lambda>(p, t). int p = t) (zip prow tgt))
                               (tensor_t m pred0)))
         = length (filter (\<lambda>i. tgt ! i \<in> int ` set (take k (pred0 ! i))) [0..<length tgt])"
proof -
  let ?n = "length tgt"
  let ?g = "\<lambda>prow. map (\<lambda>(p, t). int p = t) (zip prow tgt)"
  let ?Q = "\<lambda>i j. int (pred0 ! i ! j) = tgt ! i"
  have tk: "take k (map ?g (tensor_t m pred0)) = map (\<lambda>j. ?g (map (\<lambda>r. r ! j) pred0)) [0..<k]"
    using k by (simp add: tensor_t_def take_map take_upt)
  have row: "?g (map (\<lambda>r. r ! j) pred0) = map (\<lambda>i. ?Q i j) [0..<?n]" for j
    using len by (intro nth_equalityI) simp_all
  have "count_true (take k (map ?g (tensor_t m pred0)))
          = (\<Sum>j\<leftarrow>[0..<k]. length (filter (\<lambda>b. b) (map (\<lambda>i. ?Q i j) [0..<?n])))"
    by (simp add: tk count_true_sum_list row comp_def)
  also have "\<dots> = (\<Sum>j\<leftarrow>[0..<k]. card {i. i < ?n \<and> ?Q i j})"
    by (simp add: filter_map comp_def length_filter_upt_card)
  also have "\<dots> = (\<Sum>j<k. card {i. i < ?n \<and> ?Q i j})"
    by (simp add: interv_sum_list_conv_sum_set_nat atLeast0LessThan)
  also have "\<dots> = (\<Sum>i<?n. card {j. j < k \<and> ?Q i j})"
    by (rule card_swap)
  also have "\<dots> = (\<Sum>i<?n. if tgt ! i \<in> int ` set (take k (pred0 ! i)) then 1 else 0)"
  proof (rule sum.cong [OF refl])
    fix i assume "i \<in> {..<?n}"
    then have "pred0 ! i \<in> set pred0" using len by simp
    with rows k have "distinct (pred0 ! i)" "k \<le> length (pred0 ! i)" by auto
    then show "card {j. j < k \<and> ?Q i j}
                 = (if tgt ! i \<in> int ` set (take k (pred0 ! i)) then 1 else 0)"
      by (rule card_unique_position)
  qed
  also have "\<dots> = card {i. i < ?n \<and> tgt ! i \<in> int ` set (take k (pred0 ! i))}"
    by (simp only: card_as_sum)
  finally show ?thesis by (simp add: length_filter_upt_card)
qed



lemma accuracy_value:
  assumes valid: "\<forall>row \<in> set (rows output). is_topk (nat maxk) row (topk_impl (nat maxk) row)"
    and k: "0 \<le> k" "k \<le> maxk"
    and len: "length (rows output) = length target"
    and untied: "\<forall>i \<in> set [0..<length target]. target_untied (rows output ! i) (target ! i)"
  shows "of_nat (count_true (py_slice_to k
            (map (\<lambda>prow. map (\<lambda>(p, t). int p = t) (zip prow target))
                 (tensor_t (nat maxk) (map (topk_impl (nat maxk)) (rows output))))))
           * (100 / of_nat (length target))
         = topk_accuracy among_k_highest output target (nat k)"
proof -
  let ?m = "nat maxk"
  let ?pred0 = "map (topk_impl ?m) (rows output)"
  have prows: "\<forall>r \<in> set ?pred0. length r = ?m \<and> distinct r"
    using valid unfolding is_topk_def by auto
  have l2: "length target = length ?pred0" using len by simp
  have km: "nat k \<le> ?m" using k by simp
  have inner: "(target ! i \<in> int ` set (take (nat k) (?pred0 ! i)))
                 = among_k_highest (rows output ! i) (nat k) (target ! i)"
    if "i \<in> set [0..<length target]" for i
  proof -
    from that len have i: "i < length (rows output)" by simp
    then have "rows output ! i \<in> set (rows output)" by simp
    with valid have v: "is_topk ?m (rows output ! i) (topk_impl ?m (rows output ! i))" by blast
    from untied that have u: "target_untied (rows output ! i) (target ! i)" by blast
    from topk_member_iff [OF v km u] i show ?thesis by simp
  qed
  have "count_true (py_slice_to k (map (\<lambda>prow. map (\<lambda>(p, t). int p = t) (zip prow target))
                 (tensor_t ?m ?pred0)))
        = length (filter (\<lambda>i. target ! i \<in> int ` set (take (nat k) (?pred0 ! i)))
                    [0..<length target])"
    using correct_count [OF prows l2 km] k(1) by (simp only: py_slice_to_def if_True)
  also have "\<dots> = length (filter (\<lambda>i. among_k_highest (rows output ! i) (nat k) (target ! i))
                    [0..<length target])"
  proof -
    have "filter (\<lambda>i. target ! i \<in> int ` set (take (nat k) (?pred0 ! i))) [0..<length target]
            = filter (\<lambda>i. among_k_highest (rows output ! i) (nat k) (target ! i)) [0..<length target]"
      by (rule filter_cong [OF refl]) (rule inner)
    then show ?thesis by (simp only:)
  qed
  finally show ?thesis by (simp add: topk_accuracy_def)
qed

lemma accuracy_any_order:
  assumes valid: "\<forall>row \<in> set (rows output).
                    is_topk (nat (Max (set topk))) row (topk_impl (nat (Max (set topk))) row)"
    and ne: "topk \<noteq> []"
    and nonneg: "\<forall>k \<in> set topk. 0 \<le> k"
    and classes: "Max (set topk) \<le> int (ncols output)"
    and len: "length (rows output) = length target"
    and batch: "1 \<le> length target"
    and untied: "\<forall>i \<in> set [0..<length target]. target_untied (rows output ! i) (target ! i)"
  shows "accuracy topk_impl output target topk
           = Inr (map (\<lambda>k. topk_accuracy among_k_highest output target (nat k)) topk)"
proof -
  let ?maxk = "Max (set topk)"
  from ne have mem: "?maxk \<in> set topk" by (intro Max_in) simp_all
  with nonneg have m0: "0 \<le> ?maxk" by blast
  have tk: "tensor_topk topk_impl ?maxk output = Inr (map (topk_impl (nat ?maxk)) (rows output))"
    using m0 classes by (simp add: tensor_topk_def)
  have ex: "expand_target (length (rows output)) target = Inr target"
    using len by (simp add: expand_target_def)
  have b0: "length target \<noteq> 0" using batch by linarith
  have vals: "map (\<lambda>k. of_nat (count_true (py_slice_to k
            (map (\<lambda>prow. map (\<lambda>(p, t). int p = t) (zip prow target))
                 (tensor_t (nat ?maxk) (map (topk_impl (nat ?maxk)) (rows output))))))
           * (100 / of_nat (length target))) topk
         = map (\<lambda>k. topk_accuracy among_k_highest output target (nat k)) topk"
  proof (rule map_cong [OF refl])
    fix k assume kin: "k \<in> set topk"
    with nonneg have k0: "0 \<le> k" by blast
    from kin have kle: "k \<le> ?maxk" by simp
    show "of_nat (count_true (py_slice_to k
            (map (\<lambda>prow. map (\<lambda>(p, t). int p = t) (zip prow target))
                 (tensor_t (nat ?maxk) (map (topk_impl (nat ?maxk)) (rows output))))))
           * (100 / of_nat (length target))
         = topk_accuracy among_k_highest output target (nat k)"
      by (rule accuracy_value [where topk_impl = topk_impl, OF valid k0 kle len untied])
  qed
  show ?thesis
    unfolding accuracy_def Let_def using ne b0 by (simp only: tk ex vals sum.case if_False)
qed

lemma surely_topk_accuracy:
  assumes untied: "\<forall>i \<in> set [0..<length target]. target_untied (rows output ! i) (target ! i)"
  shows "topk_accuracy surely_among_k_highest output target k
           = topk_accuracy among_k_highest output target k"
proof -
  have "filter (\<lambda>i. surely_among_k_highest (rows output ! i) k (target ! i)) [0..<length target]
          = filter (\<lambda>i. among_k_highest (rows output ! i) k (target ! i)) [0..<length target]"
  proof (rule filter_cong [OF refl])
    fix i assume "i \<in> set [0..<length target]"
    with untied have "target_untied (rows output ! i) (target ! i)" by blast
    then show "surely_among_k_highest (rows output ! i) k (target ! i)
                 = among_k_highest (rows output ! i) k (target ! i)"
      by (rule surely_among_iff)
  qed
  then show ?thesis by (simp only: topk_accuracy_def)
qed

text \<open>
  C1 as stated fails on equal scores. In the first row of the batch below classes 1 and 3
  share the highest score, and the library returns the lower index first. With targets
  \<open>[3, 1, 4]\<close> the code counts one row for \<open>k = 1\<close>, where two rows have a target that no
  class outscores; with targets \<open>[1, 1, 4]\<close> it counts two rows, where one row has a target
  that outscores every other class.
\<close>

theorem accuracy_tie_counterexample:
  "accuracy topk_lowest_first
      \<lparr>ncols = 5, rows = [[1, 5, 3, 5, 0], [9, 1, 2, 3, 4], [0, 0, 0, 0, 1]]\<rparr> [3, 1, 4] [1, 5]
     = Inr [100 / 3, 100] \<and>
   map (\<lambda>k. topk_accuracy among_k_highest
               \<lparr>ncols = 5, rows = [[1, 5, 3, 5, 0], [9, 1, 2, 3, 4], [0, 0, 0, 0, 1]]\<rparr>
               [3, 1, 4] (nat k)) [1, 5]
     = [200 / 3, 100] \<and>
   accuracy topk_lowest_first
      \<lparr>ncols = 5, rows = [[1, 5, 3, 5, 0], [9, 1, 2, 3, 4], [0, 0, 0, 0, 1]]\<rparr> [1, 1, 4] [1, 5]
     = Inr [200 / 3, 100] \<and>
   map (\<lambda>k. topk_accuracy surely_among_k_highest
               \<lparr>ncols = 5, rows = [[1, 5, 3, 5, 0], [9, 1, 2, 3, 4], [0, 0, 0, 0, 1]]\<rparr>
               [1, 1, 4] (nat k)) [1, 5]
     = [100 / 3, 100]"
  by code_simp

text \<open>
  C1, amended. For a score matrix with at least \<open>max(topk)\<close> classes per row, one target
  label per row (\<open>batch_size \<ge> 1\<close> rows) and, in every row, no other class with the score
  of the row's target, \<open>accuracy\<close> raises nothing and returns one value per \<open>k\<close> in \<open>topk\<close>:
  100 times the number of rows whose target label is among the \<open>k\<close> highest-scoring classes
  of the row, divided by \<open>batch_size\<close>, whichever order the library gives to equal scores.
  The entries of \<open>topk\<close> are counts, hence not negative; on such targets the two readings
  of ``among the \<open>k\<close> highest-scoring'' agree.
\<close>

theorem accuracy_topk:
  assumes valid: "\<forall>row \<in> set (rows output).
                    is_topk (nat (Max (set topk))) row (topk_impl (nat (Max (set topk))) row)"
    and ne: "topk \<noteq> []"
    and nonneg: "\<forall>k \<in> set topk. 0 \<le> k"
    and classes: "Max (set topk) \<le> int (ncols output)"
    and len: "length (rows output) = length target"
    and batch: "1 \<le> length target"
    and untied: "\<forall>i \<in> set [0..<length target]. target_untied (rows output ! i) (target ! i)"
  shows "accuracy topk_impl output target topk
           = Inr (map (\<lambda>k. topk_accuracy among_k_highest output target (nat k)) topk) \<and>
         map (\<lambda>k. topk_accuracy surely_among_k_highest output target (nat k)) topk
           = map (\<lambda>k. topk_accuracy among_k_highest output target (nat k)) topk"
proof
  show "accuracy topk_impl output target topk
           = Inr (map (\<lambda>k. topk_accuracy among_k_highest output target (nat k)) topk)"
    by (rule accuracy_any_order [where topk_impl = topk_impl, OF valid ne nonneg classes len batch untied])
  show "map (\<lambda>k. topk_accuracy surely_among_k_highest output target (nat k)) topk
           = map (\<lambda>k. topk_accuracy among_k_highest output target (nat k)) topk"
    by (simp only: surely_topk_accuracy [OF untied])
qed

theorem accuracy_topk_witness:
  "accuracy topk_lowest_first
      \<lparr>ncols = 5, rows = [[1, 6, 3, 5, 0], [9, 1, 2, 3, 4], [0, 2, - 1, 7, 1]]\<rparr> [3, 1, 3] [1, 5]
     = Inr [100 / 3, 100]"
proof -
  let ?out = "\<lparr>ncols = 5, rows = [[1, 6, 3, 5, 0], [9, 1, 2, 3, 4], [0, 2, - 1, 7, 1 :: rat]]\<rparr>"
  have 1: "\<forall>row \<in> set (rows ?out).
             is_topk (nat (Max (set [1, 5]))) row (topk_lowest_first (nat (Max (set [1, 5]))) row)"
    by (simp add: is_topk_lowest_first)
  have 3: "[1, 5 :: int] \<noteq> []" by simp
  have 4: "\<forall>k \<in> set [1, 5 :: int]. 0 \<le> k" by simp
  have 5: "Max (set [1, 5 :: int]) \<le> int (ncols ?out)" by simp
  have 6: "length (rows ?out) = length [3, 1, 3 :: int]" by simp
  have 7: "1 \<le> length [3, 1, 3 :: int]" by simp
  have 8: "\<forall>i \<in> set [0..<length [3, 1, 3 :: int]].
             target_untied (rows ?out ! i) ([3, 1, 3] ! i)"
    by code_simp
  have v: "map (\<lambda>k. topk_accuracy among_k_highest ?out [3, 1, 3] (nat k)) [1, 5] = [100 / 3, 100]"
    by code_simp
  from accuracy_topk [where topk_impl = topk_lowest_first, OF 1 3 4 5 6 7 8]
  show ?thesis unfolding v by blast
qed


subsection \<open>Facts about the best-accuracy records\<close>

lemma Max_insert_Cons:
  "Max (insert (a::rat) (set (x # xs))) = Max (insert (max a x) (set xs))"
proof (cases "xs = []")
  case True
  then show ?thesis by (simp add: max.commute)
next
  case False
  then have ne: "set xs \<noteq> {}" by simp
  have "Max (insert a (set (x # xs))) = max a (max x (Max (set xs)))"
    using ne by simp
  also have "\<dots> = max (max a x) (Max (set xs))" by (simp add: max.assoc)
  also have "\<dots> = Max (insert (max a x) (set xs))" using ne by simp
  finally show ?thesis .
qed

lemma update_best_val:
  "top1 (fst (update_best accs (bv, bt))) = max (top1 bv) (fst accs)"
  "top5 (fst (update_best accs (bv, bt))) = max (top5 bv) (fst (snd accs))"
  by (cases accs; simp add: update_best_def Let_def max_def)+

lemma update_best_test:
  "snd (update_best (v1, v5, t1, t5) (bv, bt))
     = (if top1 bv < v1 then bt\<lparr>top1 := max (top1 bt) t1, top5 := max (top5 bt) t5\<rparr> else bt)"
  by (simp add: update_best_def Let_def)

lemma fold_update_best_val:
  "top1 (fst (fold update_best es (bv, bt))) = Max (insert (top1 bv) (set (map fst es))) \<and>
   top5 (fst (fold update_best es (bv, bt))) = Max (insert (top5 bv) (set (map (fst \<circ> snd) es)))"
proof (induction es arbitrary: bv bt)
  case Nil
  then show ?case by simp
next
  case (Cons x es)
  obtain bv1 bt1 where st: "update_best x (bv, bt) = (bv1, bt1)" by (cases "update_best x (bv, bt)")
  have 1: "top1 bv1 = max (top1 bv) (fst x)" and 5: "top5 bv1 = max (top5 bv) (fst (snd x))"
    using update_best_val [of x bv bt] st by simp_all
  have "top1 (fst (fold update_best (x # es) (bv, bt))) = Max (insert (top1 bv1) (set (map fst es)))"
    using Cons.IH [of bv1 bt1] st by simp
  also have "\<dots> = Max (insert (top1 bv) (set (map fst (x # es))))"
    by (simp only: 1 Max_insert_Cons list.map)
  finally have a: "top1 (fst (fold update_best (x # es) (bv, bt)))
                     = Max (insert (top1 bv) (set (map fst (x # es))))" .
  have "top5 (fst (fold update_best (x # es) (bv, bt)))
          = Max (insert (top5 bv1) (set (map (fst \<circ> snd) es)))"
    using Cons.IH [of bv1 bt1] st by simp
  also have "\<dots> = Max (insert (top5 bv) (set (map (fst \<circ> snd) (x # es))))"
    by (simp only: 5 Max_insert_Cons list.map comp_apply)
  finally have b: "top5 (fst (fold update_best (x # es) (bv, bt)))
                     = Max (insert (top5 bv) (set (map (fst \<circ> snd) (x # es))))" .
  from a b show ?case ..
qed


lemma make_stats_fields:
  "epoch (make_stats ep accs bests) = ep"
  "(val_acc1 (make_stats ep accs bests), val_acc5 (make_stats ep accs bests),
    test_acc1 (make_stats ep accs bests), test_acc5 (make_stats ep accs bests)) = accs"
  by (cases accs; simp add: make_stats_def)+

lemma run_epoch_report:
  assumes r0: "rank a = 0" and run: "run_epoch a e ep w = Inr w'"
  shows "stdout w' = stdout w @ [make_stats ep (evaluate e (model w'))
                                    (best_val_acc w', best_test_acc w')]"
    and "(best_val_acc w', best_test_acc w')
           = update_best (evaluate e (model w')) (best_val_acc w, best_test_acc w)"
  using run r0
  by (auto simp: run_epoch_def Let_def evaluate_and_report_def save_checkpoint_def
      split: sum.splits if_splits)

lemma run_epochs_report:
  assumes r0: "rank a = 0"
  shows "run_epochs a e eps w = Inr w' \<Longrightarrow>
         \<exists>recs. stdout w' = stdout w @ recs \<and> map epoch recs = eps \<and>
           (best_val_acc w', best_test_acc w')
             = fold update_best (map (\<lambda>r. (val_acc1 r, val_acc5 r, test_acc1 r, test_acc5 r)) recs)
                 (best_val_acc w, best_test_acc w)"
proof (induction eps arbitrary: w)
  case Nil
  then show ?case by simp
next
  case (Cons ep eps)
  from Cons.prems obtain w1 where s1: "run_epoch a e ep w = Inr w1"
    and rest: "run_epochs a e eps w1 = Inr w'"
    by (auto split: sum.splits)
  let ?st = "make_stats ep (evaluate e (model w1)) (best_val_acc w1, best_test_acc w1)"
  note rep = run_epoch_report [OF r0 s1]
  from Cons.IH [OF rest] obtain recs where
    out: "stdout w' = stdout w1 @ recs" and eps: "map epoch recs = eps"
    and best: "(best_val_acc w', best_test_acc w')
             = fold update_best (map (\<lambda>r. (val_acc1 r, val_acc5 r, test_acc1 r, test_acc5 r)) recs)
                 (best_val_acc w1, best_test_acc w1)"
    by blast
  have h1: "stdout w' = stdout w @ (?st # recs)" using out rep(1) by simp
  have h2: "map epoch (?st # recs) = ep # eps" using eps by (simp add: make_stats_fields(1))
  have h3: "(best_val_acc w', best_test_acc w')
             = fold update_best (map (\<lambda>r. (val_acc1 r, val_acc5 r, test_acc1 r, test_acc5 r)) (?st # recs))
                 (best_val_acc w, best_test_acc w)"
    using best rep(2) by (simp add: make_stats_fields(2))
  show ?case by (rule exI [of _ "?st # recs"]) (intro conjI h1 h2 h3)
qed

text \<open>
  C8. Over the epochs that a rank-0 worker runs, each epoch prints one record with the
  accuracies measured on the model of that epoch; \<open>best_val_acc.top1\<close> and
  \<open>best_val_acc.top5\<close> end as the maxima of their starting values and the validation top-1
  and top-5 accuracies of the printed records, so they never decrease; in each epoch
  \<open>best_test_acc\<close> changes only if the epoch's validation top-1 accuracy exceeds the
  previous best, and then each field becomes the maximum of its old value and the epoch's
  test accuracy.
\<close>

theorem best_accuracy_running_maxima:
  assumes r0: "rank a = 0"
    and run: "run_epochs a e eps w = Inr w'"
    and one: "run_epoch a e ep u = Inr u'"
  shows "(\<exists>recs. stdout w' = stdout w @ recs \<and> map epoch recs = eps \<and>
            (best_val_acc w', best_test_acc w')
              = fold update_best (map (\<lambda>r. (val_acc1 r, val_acc5 r, test_acc1 r, test_acc5 r)) recs)
                  (best_val_acc w, best_test_acc w) \<and>
            top1 (best_val_acc w') = Max (insert (top1 (best_val_acc w)) (set (map val_acc1 recs))) \<and>
            top5 (best_val_acc w') = Max (insert (top5 (best_val_acc w)) (set (map val_acc5 recs)))) \<and>
         top1 (best_val_acc w) \<le> top1 (best_val_acc w') \<and>
         top5 (best_val_acc w) \<le> top5 (best_val_acc w') \<and>
         (\<exists>st. stdout u' = stdout u @ [st] \<and> epoch st = ep \<and>
            (val_acc1 st, val_acc5 st, test_acc1 st, test_acc5 st) = evaluate e (model u') \<and>
            top1 (best_val_acc u') = max (top1 (best_val_acc u)) (val_acc1 st) \<and>
            top5 (best_val_acc u') = max (top5 (best_val_acc u)) (val_acc5 st) \<and>
            best_test_acc u'
              = (if top1 (best_val_acc u) < val_acc1 st
                 then (best_test_acc u)\<lparr>top1 := max (top1 (best_test_acc u)) (test_acc1 st),
                                         top5 := max (top5 (best_test_acc u)) (test_acc5 st)\<rparr>
                 else best_test_acc u))"
proof -
  from run_epochs_report [OF r0 run] obtain recs where
    out: "stdout w' = stdout w @ recs" and eps: "map epoch recs = eps"
    and best: "(best_val_acc w', best_test_acc w')
             = fold update_best (map (\<lambda>r. (val_acc1 r, val_acc5 r, test_acc1 r, test_acc5 r)) recs)
                 (best_val_acc w, best_test_acc w)"
    by blast
  let ?es = "map (\<lambda>r. (val_acc1 r, val_acc5 r, test_acc1 r, test_acc5 r)) recs"
  have bv: "best_val_acc w' = fst (fold update_best ?es (best_val_acc w, best_test_acc w))"
    using arg_cong [OF best, of fst] by simp
  have m1: "top1 (best_val_acc w') = Max (insert (top1 (best_val_acc w)) (set (map val_acc1 recs)))"
    and m5: "top5 (best_val_acc w') = Max (insert (top5 (best_val_acc w)) (set (map val_acc5 recs)))"
    using fold_update_best_val [of ?es "best_val_acc w" "best_test_acc w"]
    by (simp_all add: bv comp_def)
  have "top1 (best_val_acc w) \<le> Max (insert (top1 (best_val_acc w)) (set (map val_acc1 recs)))"
    by (intro Max_ge) simp_all
  then have g1: "top1 (best_val_acc w) \<le> top1 (best_val_acc w')" by (simp only: m1)
  have "top5 (best_val_acc w) \<le> Max (insert (top5 (best_val_acc w)) (set (map val_acc5 recs)))"
    by (intro Max_ge) simp_all
  then have g5: "top5 (best_val_acc w) \<le> top5 (best_val_acc w')" by (simp only: m5)
  let ?st = "make_stats ep (evaluate e (model u')) (best_val_acc u', best_test_acc u')"
  note rep = run_epoch_report [OF r0 one]
  obtain v1 v5 t1 t5 where ev: "evaluate e (model u') = (v1, v5, t1, t5)"
    by (cases "evaluate e (model u')") auto
  have f: "val_acc1 ?st = v1" "val_acc5 ?st = v5" "test_acc1 ?st = t1" "test_acc5 ?st = t5"
    using make_stats_fields(2) [of ep "evaluate e (model u')" "(best_val_acc u', best_test_acc u')"]
    by (simp_all add: ev)
  have upd: "(best_val_acc u', best_test_acc u')
               = update_best (v1, v5, t1, t5) (best_val_acc u, best_test_acc u)"
    using rep(2) by (simp only: ev)
  have bvu: "best_val_acc u' = fst (update_best (v1, v5, t1, t5) (best_val_acc u, best_test_acc u))"
    using arg_cong [OF upd, of fst] by simp
  have btu: "best_test_acc u' = snd (update_best (v1, v5, t1, t5) (best_val_acc u, best_test_acc u))"
    using arg_cong [OF upd, of snd] by simp
  have a1: "top1 (best_val_acc u') = max (top1 (best_val_acc u)) v1"
    using update_best_val(1) [of "(v1, v5, t1, t5)" "best_val_acc u" "best_test_acc u"]
    by (simp add: bvu)
  have a5: "top5 (best_val_acc u') = max (top5 (best_val_acc u)) v5"
    using update_best_val(2) [of "(v1, v5, t1, t5)" "best_val_acc u" "best_test_acc u"]
    by (simp add: bvu)
  have at: "best_test_acc u'
              = (if top1 (best_val_acc u) < v1
                 then (best_test_acc u)\<lparr>top1 := max (top1 (best_test_acc u)) t1,
                                         top5 := max (top5 (best_test_acc u)) t5\<rparr>
                 else best_test_acc u)"
    using update_best_test [of v1 v5 t1 t5 "best_val_acc u" "best_test_acc u"]
    by (simp only: btu)
  have l1: "stdout u' = stdout u @ [?st]" by (rule rep(1))
  have l2: "epoch ?st = ep" by (rule make_stats_fields(1))
  have l3: "(val_acc1 ?st, val_acc5 ?st, test_acc1 ?st, test_acc5 ?st) = evaluate e (model u')"
    by (rule make_stats_fields(2))
  have l4: "top1 (best_val_acc u') = max (top1 (best_val_acc u)) (val_acc1 ?st)"
    unfolding f by (rule a1)
  have l5: "top5 (best_val_acc u') = max (top5 (best_val_acc u)) (val_acc5 ?st)"
    unfolding f by (rule a5)
  have l6: "best_test_acc u'
              = (if top1 (best_val_acc u) < val_acc1 ?st
                 then (best_test_acc u)\<lparr>top1 := max (top1 (best_test_acc u)) (test_acc1 ?st),
                                         top5 := max (top5 (best_test_acc u)) (test_acc5 ?st)\<rparr>
                 else best_test_acc u)"
    unfolding f by (rule at)
  have last: "\<exists>st. stdout u' = stdout u @ [st] \<and> epoch st = ep \<and>
            (val_acc1 st, val_acc5 st, test_acc1 st, test_acc5 st) = evaluate e (model u') \<and>
            top1 (best_val_acc u') = max (top1 (best_val_acc u)) (val_acc1 st) \<and>
            top5 (best_val_acc u') = max (top5 (best_val_acc u)) (val_acc5 st) \<and>
            best_test_acc u'
              = (if top1 (best_val_acc u) < val_acc1 st
                 then (best_test_acc u)\<lparr>top1 := max (top1 (best_test_acc u)) (test_acc1 st),
                                         top5 := max (top5 (best_test_acc u)) (test_acc5 st)\<rparr>
                 else best_test_acc u)"
    by (rule exI [of _ ?st]) (intro conjI l1 l2 l3 l4 l5 l6)
  have first: "\<exists>recs. stdout w' = stdout w @ recs \<and> map epoch recs = eps \<and>
            (best_val_acc w', best_test_acc w')
              = fold update_best (map (\<lambda>r. (val_acc1 r, val_acc5 r, test_acc1 r, test_acc5 r)) recs)
                  (best_val_acc w, best_test_acc w) \<and>
            top1 (best_val_acc w') = Max (insert (top1 (best_val_acc w)) (set (map val_acc1 recs))) \<and>
            top5 (best_val_acc w') = Max (insert (top5 (best_val_acc w)) (set (map val_acc5 recs)))"
    by (rule exI [of _ recs]) (intro conjI out eps best m1 m5)
  show ?thesis by (intro conjI first g1 g5 last)
qed

theorem best_accuracy_running_maxima_witness:
  "\<exists>w'. run_epochs (demo_args Freeze) demo_env_varying [0, 1, 2]
            \<lparr>model = [(''conv1.weight'', vec1 1), (''bn1.running_mean'', vec1 2),
                       (''fc.weight'', vec1 (3 / 100)), (''fc.bias'', vec1 0)],
             optimizer = 0, scheduler = 0,
             best_val_acc = \<lparr>top1 = 0, top5 = 0\<rparr>, best_test_acc = \<lparr>top1 = 0, top5 = 0\<rparr>,
             checkpoint_file = None, stdout = [], stats_file = []\<rparr> = Inr w'
      \<and> map val_acc1 (stdout w') = [20, 0, 20] \<and> map val_acc5 (stdout w') = [94, 92, 90]
      \<and> top1 (best_val_acc w') = Max (insert 0 (set [20, 0, 20]))
      \<and> top5 (best_val_acc w') = Max (insert 0 (set [94, 92, 90]))
      \<and> best_test_acc w' = \<lparr>top1 = 6, top5 = 56\<rparr>"
proof -
  let ?a = "demo_args Freeze"
  let ?w = "\<lparr>model = [(''conv1.weight'', vec1 1), (''bn1.running_mean'', vec1 2),
                       (''fc.weight'', vec1 (3 / 100)), (''fc.bias'', vec1 0)],
             optimizer = 0::nat, scheduler = 0::nat,
             best_val_acc = \<lparr>top1 = 0, top5 = 0\<rparr>, best_test_acc = \<lparr>top1 = 0, top5 = 0\<rparr>,
             checkpoint_file = None, stdout = [], stats_file = []\<rparr>"
  have r0: "rank ?a = 0" by (simp add: demo_args_def)
  obtain w' where run: "run_epochs ?a demo_env_varying [0, 1, 2] ?w = Inr w'"
    and v1: "map val_acc1 (stdout w') = [20, 0, 20]"
    and v5: "map val_acc5 (stdout w') = [94, 92, 90]"
    and bt: "best_test_acc w' = \<lparr>top1 = 6, top5 = 56\<rparr>"
    by (simp add: demo_args_def demo_env_varying_def demo_env_def run_epoch_def train_epoch_def
        train_step_def optimizer_step_def forward_def train_mode_def param_groups_def
        classifier_parameters_def requires_grad_def evaluate_and_report_def update_best_def
        make_stats_def save_checkpoint_def vec1_def Let_def)
  obtain u' where one: "run_epoch ?a demo_env_varying 0 ?w = Inr u'"
    by (simp add: demo_args_def demo_env_varying_def demo_env_def run_epoch_def train_epoch_def
        train_step_def optimizer_step_def forward_def train_mode_def param_groups_def
        classifier_parameters_def requires_grad_def evaluate_and_report_def update_best_def
        make_stats_def save_checkpoint_def vec1_def Let_def)
  from best_accuracy_running_maxima [OF r0 run one] obtain recs where
    out: "stdout w' = stdout ?w @ recs"
    and m1: "top1 (best_val_acc w') = Max (insert (top1 (best_val_acc ?w)) (set (map val_acc1 recs)))"
    and m5: "top5 (best_val_acc w') = Max (insert (top5 (best_val_acc ?w)) (set (map val_acc5 recs)))"
    by blast
  from out have recs: "recs = stdout w'" by simp
  have t1: "top1 (best_val_acc w') = Max (insert 0 (set [20, 0, 20]))"
    using m1 unfolding recs v1 by simp
  have t5: "top5 (best_val_acc w') = Max (insert 0 (set [94, 92, 90]))"
    using m5 unfolding recs v5 by simp
  show ?thesis by (rule exI [of _ w']) (intro conjI run v1 v5 t1 t5 bt)
qed


subsection \<open>Statelessness of the utilities\<close>


lemma accuracy_depends_on_tie_order:
  "accuracy topk_lowest_first \<lparr>ncols = 2, rows = [[5, 5]]\<rparr> [1] [1] = Inr [0] \<and>
   accuracy topk_highest_first \<lparr>ncols = 2, rows = [[5, 5]]\<rparr> [1] [1] = Inr [100] \<and>
   is_topk 1 [5, 5] (topk_lowest_first 1 [5, 5]) \<and>
   is_topk 1 [5, 5] (topk_highest_first 1 [5, 5])"
  by code_simp






subsection \<open>The epoch record\<close>

text \<open>
  C4 at a concrete epoch. On a fresh run whose first epoch measures validation top-1 10,
  validation top-5 50, test top-1 5 and test top-5 40, the record written for the epoch has
  \<open>best_val_acc5 = 40\<close>, the best test top-5 accuracy, while the best validation top-5
  accuracy kept in \<open>best_val_acc\<close> is 50.
\<close>

theorem epoch_record_best_val_acc5:
  "(let e = \<lparr>named_parameters = [''fc.weight'', ''fc.bias''],
              normal_sample = (\<lambda>mean std i. 0),
              forward_buffer = (\<lambda>b m k. vec1 0), sgd_param = (\<lambda>b opt m k. vec1 0),
              sgd_state = (\<lambda>b opt m. ()), scheduler_step = (\<lambda>s opt. ((), ())),
              train_loader = (\<lambda>ep. [()]), evaluate = (\<lambda>m. (10, 50, 5, 40)),
              pretrained_file = []\<rparr>;
        w = \<lparr>model = [(''fc.weight'', vec1 0), (''fc.bias'', vec1 0)],
              optimizer = (), scheduler = (),
              best_val_acc = \<lparr>top1 = 0, top5 = 0\<rparr>, best_test_acc = \<lparr>top1 = 0, top5 = 0\<rparr>,
              checkpoint_file = None, stdout = [], stats_file = []\<rparr>;
        w' = evaluate_and_report e 0 w
    in map best_val_acc5 (stdout w') = [40] \<and> map best_val_acc5 (stats_file w') = [40]
       \<and> map val_acc5 (stdout w') = [50] \<and> top5 (best_val_acc w') = 50)"
  by (simp add: evaluate_and_report_def update_best_def make_stats_def Let_def)


subsection \<open>Facts about state dictionaries\<close>

lemma map_of_copy_state:
  assumes "missing_keys_of m sd = []" and "unexpected_keys_of m sd = []"
  shows "map_of (copy_state m sd) = map_of sd"
proof
  fix k
  show "map_of (copy_state m sd) k = map_of sd k"
  proof (cases "k \<in> fst ` set m")
    case False
    then have "map_of m k = None" by (simp add: map_of_eq_None_iff)
    have "k \<notin> fst ` set sd"
    proof
      assume "k \<in> fst ` set sd"
      then have "k \<in> set (map fst sd)" by simp
      with \<open>map_of m k = None\<close> have "k \<in> set (unexpected_keys_of m sd)"
        by (simp add: unexpected_keys_of_def)
      with assms(2) show False by simp
    qed
    then have "map_of sd k = None" by (simp add: map_of_eq_None_iff)
    moreover have "fst ` set (copy_state m sd) = fst ` set m"
      by (force simp: copy_state_def split: option.splits)
    with False have "map_of (copy_state m sd) k = None" by (simp add: map_of_eq_None_iff)
    ultimately show ?thesis by simp
  next
    case True
    have all: "\<forall>k' \<in> set (map fst m). map_of sd k' \<noteq> None"
    proof
      fix k' assume "k' \<in> set (map fst m)"
      show "map_of sd k' \<noteq> None"
      proof
        assume "map_of sd k' = None"
        with \<open>k' \<in> set (map fst m)\<close> have "k' \<in> set (missing_keys_of m sd)"
          by (simp add: missing_keys_of_def)
        with assms(1) show False by simp
      qed
    qed
    from True all show ?thesis
    proof (induction m)
      case Nil
      then show ?case by simp
    next
      case (Cons p m)
      obtain k' v where p: "p = (k', v)" by (cases p)
      from Cons.prems(2) p obtain w where w: "map_of sd k' = Some w" by auto
      show ?case
      proof (cases "k = k'")
        case True
        then show ?thesis using p w by (simp add: copy_state_def)
      next
        case False
        with Cons.prems(1) p have "k \<in> fst ` set m" by auto
        moreover from Cons.prems(2) have "\<forall>k' \<in> set (map fst m). map_of sd k' \<noteq> None" by simp
        ultimately have "map_of (copy_state m sd) k = map_of sd k" by (rule Cons.IH)
        then show ?thesis using False p w by (simp add: copy_state_def)
      qed
    qed
  qed
qed





lemma size_mismatch_empty:
  assumes "size_mismatch m sd = []" and "map_of m k = Some v" and "map_of sd k = Some w"
  shows "shape w = shape v"
proof -
  from assms(2) have "(k, v) \<in> set m" by (rule map_of_SomeD)
  with assms(1) have "\<not> (case map_of sd k of None \<Rightarrow> False | Some w \<Rightarrow> shape w \<noteq> shape v)"
    by (auto simp: size_mismatch_def filter_empty_conv)
  with assms(3) show ?thesis by simp
qed

lemma map_of_map_values:
  "map_of (map (\<lambda>(k, v). (k, g k v)) m) k = map_option (g k) (map_of m k)"
  by (induction m) auto

lemma copy_state_alt:
  "copy_state m sd = map (\<lambda>(k, v). (k, case map_of sd k of None \<Rightarrow> v | Some w \<Rightarrow> w)) m"
  by (auto simp: copy_state_def split: option.splits)

lemma keys_copy_state: "map fst (copy_state m sd) = map fst m"
  by (simp add: copy_state_alt case_prod_beta comp_def)

lemma missing_keys_set:
  "set (missing_keys_of m sd) = {k \<in> fst ` set m. k \<notin> fst ` set sd}"
  by (auto simp: missing_keys_of_def map_of_eq_None_iff)

lemma unexpected_keys_set:
  "set (unexpected_keys_of m sd) = {k \<in> fst ` set sd. k \<notin> fst ` set m}"
  by (auto simp: unexpected_keys_of_def map_of_eq_None_iff)


subsection \<open>Facts about loading the pretrained weights\<close>

lemma init_fc_alt:
  "init_fc e m = map (\<lambda>(k, v). (k, if k = ''fc.weight'' then normal_init e 0 (1 / 100) v
                                     else if k = ''fc.bias'' then zero_init v else v)) m"
  by (auto simp: init_fc_def)

lemma keys_init_fc: "map fst (init_fc e m) = map fst m"
  by (simp add: init_fc_alt case_prod_beta comp_def)

lemma load_pretrained_cases:
  "load_pretrained e m =
     (if size_mismatch m (pretrained_file e) \<noteq> [] then Inl RuntimeError
      else if missing_keys_of m (pretrained_file e) = [''fc.weight'', ''fc.bias'']
              \<and> unexpected_keys_of m (pretrained_file e) = []
      then Inr (init_fc e (copy_state m (pretrained_file e))) else Inl AssertionError)"
  by (simp add: load_pretrained_def load_state_dict_def Let_def)

lemma load_result_aux:
  fixes a b :: string
  assumes mk: "missing_keys_of m sd = [a, b]"
    and uk: "unexpected_keys_of m sd = []"
    and m': "m' = map (\<lambda>(k, v). (k, if k = a then f v else if k = b then g v else v))
                    (copy_state m sd)"
  shows "set (map fst sd) = set (map fst m) - {a, b}"
    and "map fst m' = map fst m"
    and "\<forall>k \<in> set (map fst sd). map_of m' k = map_of sd k"
    and "\<exists>v. map_of m a = Some v \<and> map_of m' a = Some (f v)"
    and "a \<noteq> b \<Longrightarrow> \<exists>v. map_of m b = Some v \<and> map_of m' b = Some (g v)"
proof -
  from mk have ms: "{k \<in> fst ` set m. k \<notin> fst ` set sd} = {a, b}"
    using missing_keys_set [of m sd] by simp
  from uk have us: "{k \<in> fst ` set sd. k \<notin> fst ` set m} = {}"
    using unexpected_keys_set [of m sd] by simp
  show keys: "set (map fst sd) = set (map fst m) - {a, b}"
    using ms us by auto
  show "map fst m' = map fst m"
    by (simp add: m' keys_copy_state case_prod_beta comp_def)
  have lookup: "map_of m' k
      = map_option (\<lambda>v. if k = a then f (case map_of sd k of None \<Rightarrow> v | Some w \<Rightarrow> w)
                 else if k = b then g (case map_of sd k of None \<Rightarrow> v | Some w \<Rightarrow> w)
                 else (case map_of sd k of None \<Rightarrow> v | Some w \<Rightarrow> w)) (map_of m k)" for k
    unfolding m' copy_state_alt
    by (simp only: map_of_map_values map_option.compositionality comp_def)
  show "\<forall>k \<in> set (map fst sd). map_of m' k = map_of sd k"
  proof
    fix k assume k: "k \<in> set (map fst sd)"
    with keys have km: "k \<in> fst ` set m" and nfc: "k \<noteq> a" "k \<noteq> b" by auto
    from km obtain v where v: "map_of m k = Some v"
      by (cases "map_of m k") (auto simp: map_of_eq_None_iff)
    from k obtain w where w: "map_of sd k = Some w"
      by (cases "map_of sd k") (auto simp: map_of_eq_None_iff)
    show "map_of m' k = map_of sd k" using v w nfc by (simp add: lookup)
  qed
  from ms have fw: "a \<in> fst ` set m" "a \<notin> fst ` set sd"
    and fb: "b \<in> fst ` set m" "b \<notin> fst ` set sd" by auto
  from fw(1) obtain v where v: "map_of m a = Some v"
    by (cases "map_of m a") (auto simp: map_of_eq_None_iff)
  from fw(2) have "map_of sd a = None" by (simp add: map_of_eq_None_iff)
  with v show "\<exists>v. map_of m a = Some v \<and> map_of m' a = Some (f v)"
    by (simp add: lookup)
  assume ab: "a \<noteq> b"
  from fb(1) obtain u where u: "map_of m b = Some u"
    by (cases "map_of m b") (auto simp: map_of_eq_None_iff)
  from fb(2) have "map_of sd b = None" by (simp add: map_of_eq_None_iff)
  with u ab show "\<exists>v. map_of m b = Some v \<and> map_of m' b = Some (g v)"
    by (simp add: lookup)
qed


lemma load_pretrained_guard:
  assumes ok: "load_pretrained e m = Inr m'"
  shows "size_mismatch m (pretrained_file e) = []"
    and "missing_keys_of m (pretrained_file e) = [''fc.weight'', ''fc.bias'']"
    and "unexpected_keys_of m (pretrained_file e) = []"
    and "m' = init_fc e (copy_state m (pretrained_file e))"
proof -
  let ?sd = "pretrained_file e"
  show sz: "size_mismatch m ?sd = []"
  proof (rule ccontr)
    assume "size_mismatch m ?sd \<noteq> []"
    then have "load_pretrained e m = Inl RuntimeError"
      by (simp add: load_pretrained_cases)
    with ok show False by simp
  qed
  have g: "missing_keys_of m ?sd = [''fc.weight'', ''fc.bias''] \<and> unexpected_keys_of m ?sd = []"
  proof (rule ccontr)
    assume "\<not> ?thesis"
    then have "load_pretrained e m = Inl AssertionError"
      by (simp only: load_pretrained_cases sz simp_thms if_False)
    with ok show False by simp
  qed
  then show mk: "missing_keys_of m ?sd = [''fc.weight'', ''fc.bias'']"
    and uk: "unexpected_keys_of m ?sd = []" by blast+
  have "load_pretrained e m = Inr (init_fc e (copy_state m ?sd))"
    by (simp only: load_pretrained_cases sz mk uk simp_thms if_True if_False)
  with ok show "m' = init_fc e (copy_state m ?sd)" by simp
qed

lemma load_pretrained_result:
  assumes ok: "load_pretrained e m = Inr m'"
  shows "set (map fst (pretrained_file e)) = set (map fst m) - {''fc.weight'', ''fc.bias''}"
    and "map fst m' = map fst m"
    and "\<forall>k \<in> set (map fst (pretrained_file e)). map_of m' k = map_of (pretrained_file e) k"
    and "\<exists>v. map_of m ''fc.weight'' = Some v
           \<and> map_of m' ''fc.weight'' = Some (normal_init e 0 (1 / 100) v)"
    and "\<exists>v. map_of m ''fc.bias'' = Some v \<and> map_of m' ''fc.bias'' = Some (zero_init v)"
proof -
  let ?sd = "pretrained_file e"
  note g = load_pretrained_guard [OF ok]
  from g(4) have m': "m' = map (\<lambda>(k, v). (k, if k = ''fc.weight'' then normal_init e 0 (1 / 100) v
                        else if k = ''fc.bias'' then zero_init v else v)) (copy_state m ?sd)"
    by (simp only: init_fc_alt)
  have ne: "''fc.weight'' \<noteq> ''fc.bias''" by simp
  note r = load_result_aux [OF g(2) g(3) m']
  show "set (map fst ?sd) = set (map fst m) - {''fc.weight'', ''fc.bias''}" by (rule r(1))
  show "map fst m' = map fst m" by (rule r(2))
  show "\<forall>k \<in> set (map fst ?sd). map_of m' k = map_of ?sd k" by (rule r(3))
  show "\<exists>v. map_of m ''fc.weight'' = Some v
          \<and> map_of m' ''fc.weight'' = Some (normal_init e 0 (1 / 100) v)"
    by (rule r(4))
  show "\<exists>v. map_of m ''fc.bias'' = Some v \<and> map_of m' ''fc.bias'' = Some (zero_init v)"
    by (rule r(5) [OF ne])
qed

text \<open>
  C9. The worker gets past the loading only when no tensor of the pretrained file has
  another shape than the model's, the missing keys are \<open>['fc.weight', 'fc.bias']\<close> and
  there is no unexpected key: a shape mismatch raises RuntimeError in the loading, a failed
  assertion raises AssertionError, and the worker then ends with that error whatever
  number of epochs it was to run. When it gets past, the keys of the pretrained file are
  the model's keys without the two of the classifier head, every tensor of the file is in
  the model, the entries of \<open>fc.weight\<close> have been replaced by samples drawn for mean 0
  and standard deviation 0.01, and every entry of \<open>fc.bias\<close> is 0.
\<close>

theorem pretrained_load_guard:
  "((\<exists>m'. load_pretrained e m = Inr m') \<longleftrightarrow>
      size_mismatch m (pretrained_file e) = []
        \<and> missing_keys_of m (pretrained_file e) = [''fc.weight'', ''fc.bias'']
        \<and> unexpected_keys_of m (pretrained_file e) = []) \<and>
   (size_mismatch m (pretrained_file e) \<noteq> [] \<longrightarrow> load_pretrained e m = Inl RuntimeError) \<and>
   (size_mismatch m (pretrained_file e) = []
      \<and> \<not> (missing_keys_of m (pretrained_file e) = [''fc.weight'', ''fc.bias'']
             \<and> unexpected_keys_of m (pretrained_file e) = [])
      \<longrightarrow> load_pretrained e m = Inl AssertionError) \<and>
   (load_pretrained e m = Inl err \<longrightarrow> main_worker a e file m opt sched n = Inl err) \<and>
   (load_pretrained e m = Inr m' \<longrightarrow>
      set (map fst (pretrained_file e)) = set (map fst m) - {''fc.weight'', ''fc.bias''}
      \<and> map fst m' = map fst m
      \<and> (\<forall>k \<in> set (map fst (pretrained_file e)). map_of m' k = map_of (pretrained_file e) k)
      \<and> (\<exists>v. map_of m ''fc.weight'' = Some v
            \<and> map_of m' ''fc.weight''
                = Some \<lparr>shape = shape v,
                         entries = map (normal_sample e 0 (1 / 100)) [0..<length (entries v)]\<rparr>)
      \<and> (\<exists>v. map_of m ''fc.bias'' = Some v
            \<and> map_of m' ''fc.bias''
                = Some \<lparr>shape = shape v, entries = replicate (length (entries v)) 0\<rparr>))"
proof (intro conjI impI)
  show "(\<exists>m'. load_pretrained e m = Inr m') \<longleftrightarrow>
      size_mismatch m (pretrained_file e) = []
        \<and> missing_keys_of m (pretrained_file e) = [''fc.weight'', ''fc.bias'']
        \<and> unexpected_keys_of m (pretrained_file e) = []"
    by (simp add: load_pretrained_cases)
next
  assume "size_mismatch m (pretrained_file e) \<noteq> []"
  then show "load_pretrained e m = Inl RuntimeError"
    by (simp add: load_pretrained_cases)
next
  assume "size_mismatch m (pretrained_file e) = []
      \<and> \<not> (missing_keys_of m (pretrained_file e) = [''fc.weight'', ''fc.bias'']
             \<and> unexpected_keys_of m (pretrained_file e) = [])"
  then show "load_pretrained e m = Inl AssertionError"
    by (simp only: load_pretrained_cases simp_thms if_False)
next
  assume "load_pretrained e m = Inl err"
  then show "main_worker a e file m opt sched n = Inl err"
    by (simp add: main_worker_def)
next
  assume ok: "load_pretrained e m = Inr m'"
  show "set (map fst (pretrained_file e)) = set (map fst m) - {''fc.weight'', ''fc.bias''}"
    by (rule load_pretrained_result(1) [OF ok])
  show "map fst m' = map fst m" by (rule load_pretrained_result(2) [OF ok])
  show "\<forall>k \<in> set (map fst (pretrained_file e)). map_of m' k = map_of (pretrained_file e) k"
    by (rule load_pretrained_result(3) [OF ok])
  from load_pretrained_result(4) [OF ok]
  show "\<exists>v. map_of m ''fc.weight'' = Some v
            \<and> map_of m' ''fc.weight''
                = Some \<lparr>shape = shape v,
                         entries = map (normal_sample e 0 (1 / 100)) [0..<length (entries v)]\<rparr>"
    by (auto simp: normal_init_def)
  from load_pretrained_result(5) [OF ok]
  show "\<exists>v. map_of m ''fc.bias'' = Some v
            \<and> map_of m' ''fc.bias''
                = Some \<lparr>shape = shape v, entries = replicate (length (entries v)) 0\<rparr>"
    by (auto simp: zero_init_def map_replicate_const)
qed

theorem pretrained_load_guard_witness:
  "load_pretrained demo_env demo_model
     = Inr [(''conv1.weight'', vec1 1), (''bn1.running_mean'', vec1 2),
            (''fc.weight'', vec1 (3 / 100)), (''fc.bias'', vec1 0)]
   \<and> set (map fst (pretrained_file demo_env)) = set (map fst demo_model) - {''fc.weight'', ''fc.bias''}
   \<and> main_worker (demo_args Freeze) demo_env None
        [(''conv1.weight'', vec1 0), (''fc.weight'', vec1 11), (''fc.bias'', vec1 12)] 0 0 3
       = Inl AssertionError
   \<and> main_worker (demo_args Freeze) demo_env None
        [(''conv1.weight'', \<lparr>shape = [2], entries = [0, 0]\<rparr>), (''bn1.running_mean'', vec1 0),
         (''fc.weight'', vec1 11), (''fc.bias'', vec1 12)] 0 0 3
       = Inl RuntimeError"
proof -
  let ?good = "[(''conv1.weight'', vec1 1), (''bn1.running_mean'', vec1 2),
                (''fc.weight'', vec1 (3 / 100)), (''fc.bias'', vec1 0)]"
  let ?nobn = "[(''conv1.weight'', vec1 0), (''fc.weight'', vec1 11), (''fc.bias'', vec1 12)]"
  let ?wide = "[(''conv1.weight'', \<lparr>shape = [2], entries = [0, 0]\<rparr>), (''bn1.running_mean'', vec1 0),
                (''fc.weight'', vec1 11), (''fc.bias'', vec1 12)]"
  have ok: "load_pretrained demo_env demo_model = Inr ?good"
    by (simp add: load_pretrained_cases demo_env_def demo_model_def missing_keys_of_def
        unexpected_keys_of_def size_mismatch_def init_fc_def copy_state_def vec1_def
        normal_init_def zero_init_def)
  have nobn: "size_mismatch ?nobn (pretrained_file demo_env) = []
      \<and> \<not> (missing_keys_of ?nobn (pretrained_file demo_env) = [''fc.weight'', ''fc.bias'']
             \<and> unexpected_keys_of ?nobn (pretrained_file demo_env) = [])"
    by (simp add: demo_env_def missing_keys_of_def unexpected_keys_of_def size_mismatch_def vec1_def)
  have wide: "size_mismatch ?wide (pretrained_file demo_env) \<noteq> []"
    by (simp add: demo_env_def size_mismatch_def vec1_def)
  from pretrained_load_guard [of demo_env demo_model _ _ _ _ _ _ ?good] ok
  have a: "set (map fst (pretrained_file demo_env)) = set (map fst demo_model) - {''fc.weight'', ''fc.bias''}"
    by blast
  from pretrained_load_guard [of demo_env ?nobn AssertionError "demo_args Freeze" None 0 0 3] nobn
  have b: "main_worker (demo_args Freeze) demo_env None ?nobn 0 0 3 = Inl AssertionError"
    by blast
  from pretrained_load_guard [of demo_env ?wide RuntimeError "demo_args Freeze" None 0 0 3] wide
  have c: "main_worker (demo_args Freeze) demo_env None ?wide 0 0 3 = Inl RuntimeError"
    by blast
  from ok a b c show ?thesis by blast
qed


subsection \<open>Facts about checkpoints\<close>






lemma checkpoint_resume_model:
  assumes "resume a e (Some c) m opt sched = Inr (s, w)"
  shows "map_of (model w) = map_of (ckpt_model c)"
proof -
  from assms have "load_state_dict True m (ckpt_model c) = Inr (model w, [], [])"
    by (auto simp: resume_def load_state_dict_def Let_def split: sum.splits if_splits)
  then have "missing_keys_of m (ckpt_model c) = []" "unexpected_keys_of m (ckpt_model c) = []"
    and "model w = copy_state m (ckpt_model c)"
    by (auto simp: load_state_dict_def Let_def split: if_splits)
  then show ?thesis by (simp add: map_of_copy_state)
qed










subsection \<open>Facts about frozen weights\<close>

lemma sanity_check_iff:
  "sanity_check m reference = Inr () \<longleftrightarrow> (\<forall>p \<in> set reference. map_of m (fst p) = Some (snd p))"
  by (induction reference) (auto split: option.splits if_splits)

lemma optimizer_step_alt:
  "fst (optimizer_step a e b mo)
     = map (\<lambda>(k, v). (k, if k \<in> set (concat (param_groups a e)) \<and> requires_grad a e k
                          then sgd_param e b (snd mo) (fst mo) k else v)) (fst mo)"
  by (auto simp: optimizer_step_def Let_def)

lemma freeze_requires_grad:
  assumes "weights a = Freeze" and "requires_grad a e k"
  shows "k = ''fc.weight'' \<or> k = ''fc.bias''"
  using assms unfolding requires_grad_def by blast

lemma freeze_train_step:
  assumes fr: "weights a = Freeze"
  shows "map fst (fst (train_step a e b mo)) = map fst (fst mo)"
    and "\<not> (k = ''fc.weight'' \<or> k = ''fc.bias'')
           \<Longrightarrow> map_of (fst (train_step a e b mo)) k = map_of (fst mo) k"
proof -
  have fw: "forward e (train_mode a) b (fst mo) = fst mo"
    using fr by (simp add: forward_def train_mode_def)
  have ts: "fst (train_step a e b mo)
     = map (\<lambda>(k, v). (k, if k \<in> set (concat (param_groups a e)) \<and> requires_grad a e k
                          then sgd_param e b (snd mo) (fst mo) k else v)) (fst mo)"
    by (simp add: train_step_def fw optimizer_step_alt)
  show "map fst (fst (train_step a e b mo)) = map fst (fst mo)"
    unfolding ts by (simp add: case_prod_beta comp_def)
  assume nfc: "\<not> (k = ''fc.weight'' \<or> k = ''fc.bias'')"
  with freeze_requires_grad [OF fr] have ng: "\<not> requires_grad a e k" by blast
  have "map_of (fst (train_step a e b mo)) k
          = map_option (\<lambda>v. if k \<in> set (concat (param_groups a e)) \<and> requires_grad a e k
                          then sgd_param e b (snd mo) (fst mo) k else v) (map_of (fst mo) k)"
    unfolding ts by (rule map_of_map_values)
  also have "\<dots> = map_of (fst mo) k"
    using ng by (simp add: option.map_ident)
  finally show "map_of (fst (train_step a e b mo)) k = map_of (fst mo) k" .
qed

lemma freeze_fold_train_step:
  assumes fr: "weights a = Freeze"
  shows "map fst (fst (fold (train_step a e) bs mo)) = map fst (fst mo) \<and>
         (\<not> (k = ''fc.weight'' \<or> k = ''fc.bias'')
            \<longrightarrow> map_of (fst (fold (train_step a e) bs mo)) k = map_of (fst mo) k)"
proof (induction bs arbitrary: mo)
  case Nil
  then show ?case by simp
next
  case (Cons b bs)
  show ?case
    using Cons.IH [of "train_step a e b mo"]
      freeze_train_step(1) [OF fr, of e b mo] freeze_train_step(2) [OF fr, of k e b mo]
    by simp
qed

lemma freeze_run_epoch:
  assumes fr: "weights a = Freeze"
    and agree: "sanity_check (model w) (pretrained_file e) = Inr ()"
    and nofc: "\<forall>k \<in> set (map fst (pretrained_file e)). \<not> (k = ''fc.weight'' \<or> k = ''fc.bias'')"
  shows "\<exists>w'. run_epoch a e ep w = Inr w'
           \<and> sanity_check (model w') (pretrained_file e) = Inr ()
           \<and> map fst (model w') = map fst (model w)
           \<and> (\<forall>k. \<not> (k = ''fc.weight'' \<or> k = ''fc.bias'')
                  \<longrightarrow> map_of (model w') k = map_of (model w) k)"
proof -
  define mo where "mo = train_epoch a e ep (model w, optimizer w)"
  define w1 where "w1 = w\<lparr>model := fst mo, optimizer := snd mo\<rparr>"
  define w2 where "w2 = (if rank a = 0 then evaluate_and_report e ep w1 else w1)"
  define so where "so = scheduler_step e (scheduler w2) (optimizer w2)"
  define w3 where "w3 = w2\<lparr>scheduler := fst so, optimizer := snd so\<rparr>"
  define w' where "w' = (if rank a = 0 then save_checkpoint a e ep w3 else w3)"
  have frame: "map fst (fst mo) = map fst (model w)"
    "\<And>k. \<not> (k = ''fc.weight'' \<or> k = ''fc.bias'') \<Longrightarrow> map_of (fst mo) k = map_of (model w) k"
    using freeze_fold_train_step [OF fr, of e "train_loader e ep" "(model w, optimizer w)"]
    by (simp_all add: mo_def train_epoch_def)
  have m2: "model w2 = fst mo"
    by (simp add: w2_def w1_def evaluate_and_report_def Let_def)
  have m': "model w' = fst mo"
    by (simp add: w'_def w3_def m2 save_checkpoint_def)
  have chk: "sanity_check (fst mo) (pretrained_file e) = Inr ()"
    unfolding sanity_check_iff
  proof
    fix p assume p: "p \<in> set (pretrained_file e)"
    then have "fst p \<in> set (map fst (pretrained_file e))" by simp
    with nofc have "\<not> (fst p = ''fc.weight'' \<or> fst p = ''fc.bias'')" by blast
    then have "map_of (fst mo) (fst p) = map_of (model w) (fst p)" by (rule frame(2))
    also have "\<dots> = Some (snd p)" using agree p unfolding sanity_check_iff by blast
    finally show "map_of (fst mo) (fst p) = Some (snd p)" .
  qed
  have "run_epoch a e ep w = Inr w'"
    unfolding run_epoch_def Let_def mo_def [symmetric] w1_def [symmetric] w2_def [symmetric]
    using fr chk
    by (simp add: m2 so_def w3_def w'_def)
  then show ?thesis using chk frame m' by auto
qed

lemma freeze_run_epochs:
  assumes fr: "weights a = Freeze"
    and nofc: "\<forall>k \<in> set (map fst (pretrained_file e)). \<not> (k = ''fc.weight'' \<or> k = ''fc.bias'')"
  shows "sanity_check (model w) (pretrained_file e) = Inr () \<Longrightarrow>
         \<exists>w'. run_epochs a e eps w = Inr w'
           \<and> sanity_check (model w') (pretrained_file e) = Inr ()
           \<and> map fst (model w') = map fst (model w)
           \<and> (\<forall>k. \<not> (k = ''fc.weight'' \<or> k = ''fc.bias'')
                  \<longrightarrow> map_of (model w') k = map_of (model w) k)"
proof (induction eps arbitrary: w)
  case Nil
  then show ?case by simp
next
  case (Cons ep eps)
  from freeze_run_epoch [OF fr Cons.prems nofc, of ep] obtain w1 where
    s1: "run_epoch a e ep w = Inr w1"
    and c1: "sanity_check (model w1) (pretrained_file e) = Inr ()"
    and k1: "map fst (model w1) = map fst (model w)"
    and f1: "\<forall>k. \<not> (k = ''fc.weight'' \<or> k = ''fc.bias'') \<longrightarrow> map_of (model w1) k = map_of (model w) k"
    by blast
  from Cons.IH [OF c1] obtain w' where
    s2: "run_epochs a e eps w1 = Inr w'"
    and c2: "sanity_check (model w') (pretrained_file e) = Inr ()"
    and k2: "map fst (model w') = map fst (model w1)"
    and f2: "\<forall>k. \<not> (k = ''fc.weight'' \<or> k = ''fc.bias'') \<longrightarrow> map_of (model w') k = map_of (model w1) k"
    by blast
  have "run_epochs a e (ep # eps) w = Inr w'" using s1 s2 by simp
  moreover have "map fst (model w') = map fst (model w)" using k1 k2 by simp
  moreover have "\<forall>k. \<not> (k = ''fc.weight'' \<or> k = ''fc.bias'') \<longrightarrow> map_of (model w') k = map_of (model w) k"
    using f1 f2 by simp
  ultimately show ?case using c2 by blast
qed


text \<open>
  C6 as stated fails when the worker resumes from a checkpoint whose backbone is not the
  pretrained file's. A frozen run on a pretrained file with \<open>conv1.weight = 5\<close> completes
  one epoch and leaves its checkpoint; a frozen run on the pretrained file of the instance
  (\<open>conv1.weight = 1\<close>) in the same checkpoint directory gets past both loadings, runs
  epoch 1 and stops in the sanity check with AssertionError.
\<close>

theorem frozen_sanity_check_fires:
  "map_sum id checkpoint_file
     (main_worker (demo_args Freeze)
        (demo_env\<lparr>pretrained_file := [(''conv1.weight'', vec1 5), (''bn1.running_mean'', vec1 2)]\<rparr>)
        None demo_model 0 0 1)
     = Inr (Some \<lparr>ckpt_epoch = 1,
                  ckpt_best_val_acc = \<lparr>top1 = 10, top5 = 50\<rparr>,
                  ckpt_best_test_acc = \<lparr>top1 = 5, top5 = 40\<rparr>,
                  ckpt_model = [(''conv1.weight'', vec1 5), (''bn1.running_mean'', vec1 2),
                                (''fc.weight'', vec1 6), (''fc.bias'', vec1 6)],
                  ckpt_optimizer = ([2], 2), ckpt_scheduler = 1\<rparr>) \<and>
   load_pretrained demo_env demo_model
     = Inr [(''conv1.weight'', vec1 1), (''bn1.running_mean'', vec1 2), (''fc.weight'', vec1 (3 / 100)), (''fc.bias'', vec1 0)] \<and>
   map_sum id fst
     (resume (demo_args Freeze) demo_env
        (Some \<lparr>ckpt_epoch = 1,
               ckpt_best_val_acc = \<lparr>top1 = 10, top5 = 50\<rparr>,
               ckpt_best_test_acc = \<lparr>top1 = 5, top5 = 40\<rparr>,
               ckpt_model = [(''conv1.weight'', vec1 5), (''bn1.running_mean'', vec1 2),
                             (''fc.weight'', vec1 6), (''fc.bias'', vec1 6)],
               ckpt_optimizer = ([2], 2), ckpt_scheduler = 1\<rparr>)
        [(''conv1.weight'', vec1 1), (''bn1.running_mean'', vec1 2), (''fc.weight'', vec1 (3 / 100)), (''fc.bias'', vec1 0)]
        0 0)
     = Inr 1 \<and>
   main_worker (demo_args Freeze) demo_env
     (Some \<lparr>ckpt_epoch = 1,
            ckpt_best_val_acc = \<lparr>top1 = 10, top5 = 50\<rparr>,
            ckpt_best_test_acc = \<lparr>top1 = 5, top5 = 40\<rparr>,
            ckpt_model = [(''conv1.weight'', vec1 5), (''bn1.running_mean'', vec1 2),
                          (''fc.weight'', vec1 6), (''fc.bias'', vec1 6)],
            ckpt_optimizer = ([2], 2), ckpt_scheduler = 1\<rparr>)
     demo_model 0 0 1
     = Inl AssertionError"
proof -
  have rng: "epoch_range 0 3 = [0, 1, 2]" "epoch_range 1 3 = [1, 2]" by code_simp+
  show ?thesis
    by (simp add: main_worker_def load_pretrained_cases missing_keys_of_def unexpected_keys_of_def
        init_fc_def copy_state_def resume_def load_state_dict_def size_mismatch_def
        vec1_def normal_init_def zero_init_def
        rng demo_args_def demo_env_def demo_model_def run_epoch_def train_epoch_def train_step_def
        optimizer_step_def forward_def train_mode_def param_groups_def classifier_parameters_def
        requires_grad_def evaluate_and_report_def update_best_def make_stats_def
        save_checkpoint_def Let_def)
qed

text \<open>
  C6, amended. With \<open>--weights freeze\<close>, \<open>requires_grad\<close> holds of \<open>fc.weight\<close> and
  \<open>fc.bias\<close> only and the model is in eval mode during training. If the worker gets past
  the loadings and starts without a checkpoint, or from a checkpoint whose model holds the
  tensors of the pretrained file, then after any number of epochs no sanity-check assertion
  has fired, every tensor of the pretrained file still equals the model's, and only
  \<open>fc.weight\<close> and \<open>fc.bias\<close> differ from the model the worker started the epochs with.
\<close>

theorem frozen_backbone_unchanged:
  assumes fr: "weights a = Freeze"
    and d: "distinct (map fst (pretrained_file e))"
    and ld: "load_pretrained e m0 = Inr m"
    and ck: "\<forall>c. file = Some c \<longrightarrow> sanity_check (ckpt_model c) (pretrained_file e) = Inr ()"
    and rs: "resume a e file m opt0 sched0 = Inr (s, w0)"
  shows "train_mode a = Eval \<and>
         (\<forall>k. requires_grad a e k \<longrightarrow> k = ''fc.weight'' \<or> k = ''fc.bias'') \<and>
         (\<exists>w. main_worker a e file m0 opt0 sched0 n = Inr w
            \<and> sanity_check (model w) (pretrained_file e) = Inr ()
            \<and> map fst (model w) = map fst (model w0)
            \<and> (\<forall>k. \<not> (k = ''fc.weight'' \<or> k = ''fc.bias'')
                   \<longrightarrow> map_of (model w) k = map_of (model w0) k))"
proof -
  let ?ref = "pretrained_file e"
  have nofc: "\<forall>k \<in> set (map fst ?ref). \<not> (k = ''fc.weight'' \<or> k = ''fc.bias'')"
    using load_pretrained_result(1) [OF ld] by blast
  have ref: "map_of ?ref (fst p) = Some (snd p)" if "p \<in> set ?ref" for p
    using d that by (simp add: map_of_is_SomeI)
  have am: "sanity_check m ?ref = Inr ()"
    unfolding sanity_check_iff
  proof
    fix p assume p: "p \<in> set ?ref"
    then have "fst p \<in> set (map fst ?ref)" by simp
    with load_pretrained_result(3) [OF ld] have "map_of m (fst p) = map_of ?ref (fst p)" by blast
    with ref [OF p] show "map_of m (fst p) = Some (snd p)" by simp
  qed
  have a0: "sanity_check (model w0) ?ref = Inr ()"
  proof (cases "file")
    case None
    with rs have "model w0 = m" by (auto simp: resume_def)
    with am show ?thesis by simp
  next
    case (Some c)
    with rs have "map_of (model w0) = map_of (ckpt_model c)"
      using checkpoint_resume_model [of a e c m opt0 sched0 s w0] by simp
    moreover from ck Some have "sanity_check (ckpt_model c) ?ref = Inr ()" by simp
    ultimately show ?thesis unfolding sanity_check_iff by simp
  qed
  from freeze_run_epochs [OF fr nofc a0, of "take n (epoch_range s (epochs a))"]
  obtain w where "run_epochs a e (take n (epoch_range s (epochs a))) w0 = Inr w"
    and r: "sanity_check (model w) ?ref = Inr ()" "map fst (model w) = map fst (model w0)"
      "\<forall>k. \<not> (k = ''fc.weight'' \<or> k = ''fc.bias'') \<longrightarrow> map_of (model w) k = map_of (model w0) k"
    by blast
  then have "main_worker a e file m0 opt0 sched0 n = Inr w"
    using ld rs by (simp add: main_worker_def)
  moreover have "train_mode a = Eval" using fr by (simp add: train_mode_def)
  moreover have "\<forall>k. requires_grad a e k \<longrightarrow> k = ''fc.weight'' \<or> k = ''fc.bias''"
    using freeze_requires_grad [OF fr] by blast
  ultimately show ?thesis using r by blast
qed


theorem frozen_backbone_unchanged_witness:
  "\<exists>w. main_worker (demo_args Freeze) demo_env
          (Some \<lparr>ckpt_epoch = 2,
                 ckpt_best_val_acc = \<lparr>top1 = 10, top5 = 50\<rparr>,
                 ckpt_best_test_acc = \<lparr>top1 = 5, top5 = 40\<rparr>,
                 ckpt_model = [(''conv1.weight'', vec1 1), (''bn1.running_mean'', vec1 2),
                               (''fc.weight'', vec1 8), (''fc.bias'', vec1 8)],
                 ckpt_optimizer = ([2], 4), ckpt_scheduler = 2\<rparr>)
          demo_model 0 0 1 = Inr w
      \<and> sanity_check (model w) (pretrained_file demo_env) = Inr ()
      \<and> map_of (model w) ''conv1.weight'' = Some (vec1 1)
      \<and> map_of (model w) ''bn1.running_mean'' = Some (vec1 2)"
proof -
  let ?a = "demo_args Freeze"
  let ?c = "\<lparr>ckpt_epoch = 2,
                 ckpt_best_val_acc = \<lparr>top1 = 10, top5 = 50\<rparr>,
                 ckpt_best_test_acc = \<lparr>top1 = 5, top5 = 40\<rparr>,
                 ckpt_model = [(''conv1.weight'', vec1 1), (''bn1.running_mean'', vec1 2),
                               (''fc.weight'', vec1 8), (''fc.bias'', vec1 8)],
                 ckpt_optimizer = ([2], 4::nat), ckpt_scheduler = 2::nat\<rparr>"
  let ?m = "[(''conv1.weight'', vec1 1), (''bn1.running_mean'', vec1 2), (''fc.weight'', vec1 (3 / 100)), (''fc.bias'', vec1 0)]"
  let ?w0 = "\<lparr>model = [(''conv1.weight'', vec1 1), (''bn1.running_mean'', vec1 2),
                        (''fc.weight'', vec1 8), (''fc.bias'', vec1 8)],
              optimizer = 4::nat, scheduler = 2::nat,
              best_val_acc = \<lparr>top1 = 10, top5 = 50\<rparr>, best_test_acc = \<lparr>top1 = 5, top5 = 40\<rparr>,
              checkpoint_file = Some ?c, stdout = [], stats_file = []\<rparr>"
  have fr: "weights ?a = Freeze" by (simp add: demo_args_def)
  have d: "distinct (map fst (pretrained_file demo_env))" by (simp add: demo_env_def)
  have ld: "load_pretrained demo_env demo_model = Inr ?m"
    by (simp add: load_pretrained_cases demo_env_def demo_model_def missing_keys_of_def
        unexpected_keys_of_def size_mismatch_def init_fc_def copy_state_def vec1_def
        normal_init_def zero_init_def)
  have ck: "\<forall>c. Some ?c = Some c \<longrightarrow> sanity_check (ckpt_model c) (pretrained_file demo_env) = Inr ()"
    by (simp add: demo_env_def vec1_def)
  have rs: "resume ?a demo_env (Some ?c) ?m 0 0 = Inr (2, ?w0)"
    by (simp add: resume_def load_state_dict_def missing_keys_of_def unexpected_keys_of_def
        copy_state_def size_mismatch_def vec1_def param_groups_def classifier_parameters_def
        demo_args_def demo_env_def)
  from frozen_backbone_unchanged [OF fr d ld ck rs, of 1]
  obtain w where w: "main_worker ?a demo_env (Some ?c) demo_model 0 0 1 = Inr w"
    and s: "sanity_check (model w) (pretrained_file demo_env) = Inr ()"
    and f: "\<forall>k. \<not> (k = ''fc.weight'' \<or> k = ''fc.bias'') \<longrightarrow> map_of (model w) k = map_of (model ?w0) k"
    by blast
  from f have "map_of (model w) ''conv1.weight'' = Some (vec1 1)"
    and "map_of (model w) ''bn1.running_mean'' = Some (vec1 2)" by simp_all
  with w s show ?thesis by blast
qed


subsection \<open>Facts about the train/validation split\<close>

lemma shuffle_from_mset:
  "i < length x \<Longrightarrow> mset (shuffle_from draw g i x) = mset x"
proof (induction i arbitrary: g x)
  case 0
  then show ?case by simp
next
  case (Suc i)
  obtain r g' where dr: "draw g (Suc i + 1) = (r, g')" by (cases "draw g (Suc i + 1)")
  let ?j = "r mod (Suc i + 1)"
  let ?x = "x[Suc i := x ! ?j, ?j := x ! Suc i]"
  have "?j < Suc i + 1" by (rule mod_less_divisor) simp
  with Suc.prems have j: "?j < length x" by linarith
  have sw: "mset ?x = mset x" using mset_swap [OF j Suc.prems] by simp
  have "i < length ?x" using Suc.prems by simp
  from Suc.IH [OF this] sw have "mset (shuffle_from draw g' i ?x) = mset x" by simp
  then show ?case using dr by (simp add: randbelow_def)
qed

lemma shuffle_mset: "mset (shuffle draw g x) = mset x"
proof (cases "x = []")
  case True
  then show ?thesis by (simp add: shuffle_def)
next
  case False
  then have "length x - 1 < length x" by (cases x) simp_all
  then show ?thesis unfolding shuffle_def by (rule shuffle_from_mset)
qed

lemma shuffle_upt:
  "length (shuffle draw g [0..<n]) = n"
  "set (shuffle draw g [0..<n]) = {0..<n}"
  "distinct (shuffle draw g [0..<n])"
proof -
  have m: "mset (shuffle draw g [0..<n]) = mset [0..<n]" by (rule shuffle_mset)
  from mset_eq_length [OF m] show "length (shuffle draw g [0..<n]) = n" by simp
  from mset_eq_setD [OF m] show "set (shuffle draw g [0..<n]) = {0..<n}" by simp
  from mset_eq_imp_distinct_iff [OF m] show "distinct (shuffle draw g [0..<n])" by simp
qed

lemma split_train_val_eq:
  assumes p: "0 \<le> p"
  shows "split_train_val draw seeded p n
           = (take (nat ((p * int n) div 100 - (p * int n) div 100 div 10))
                   (shuffle draw (seeded 10) [0..<n]),
              drop (nat ((p * int n) div 100 - (p * int n) div 100 div 10))
                   (shuffle draw (seeded 10) [0..<n]))"
proof -
  define t where "t = (p * int n) div 100"
  have "0 \<le> p * int n" using p by simp
  then have t0: "0 \<le> t" by (simp add: t_def pos_imp_zdiv_nonneg_iff)
  then have "t div 10 \<le> t" by linarith
  then have k0: "0 \<le> t - t div 10" by simp
  show ?thesis
    unfolding split_train_val_def Let_def t_def [symmetric]
    using k0 by (simp add: py_slice_from_def py_slice_to_def)
qed

lemma split_train_val_sets:
  assumes p: "0 \<le> p"
  shows "length (snd (split_train_val draw seeded p n))
           = n - nat ((p * int n) div 100 - (p * int n) div 100 div 10)"
    and "set (fst (split_train_val draw seeded p n)) \<inter> set (snd (split_train_val draw seeded p n)) = {}"
    and "set (fst (split_train_val draw seeded p n)) \<union> set (snd (split_train_val draw seeded p n)) = {0..<n}"
proof -
  let ?perm = "shuffle draw (seeded 10) [0..<n]"
  let ?k = "nat ((p * int n) div 100 - (p * int n) div 100 div 10)"
  note eq = split_train_val_eq [OF p, of draw seeded n]
  show "length (snd (split_train_val draw seeded p n)) = n - ?k"
    unfolding eq snd_conv by (simp add: shuffle_upt(1))
  show "set (fst (split_train_val draw seeded p n)) \<inter> set (snd (split_train_val draw seeded p n)) = {}"
    unfolding eq fst_conv snd_conv
    using shuffle_upt(3) [of draw "seeded 10" n] by (rule set_take_disj_set_drop_if_distinct) simp
  have "set (take ?k ?perm) \<union> set (drop ?k ?perm) = set ?perm"
    by (metis append_take_drop_id set_append)
  then show "set (fst (split_train_val draw seeded p n)) \<union> set (snd (split_train_val draw seeded p n)) = {0..<n}"
    unfolding eq fst_conv snd_conv by (simp only: shuffle_upt(2))
qed

text \<open>
  C7 at \<open>--train-percent 10\<close> on the 50000 training images of CIFAR: the two index lists
  are disjoint, but the validation list is everything after the first 4500 shuffled
  indices, 45500 elements instead of \<open>num_val = 500\<close>, and the two lists together are all
  50000 indices instead of the first 5000 of the permutation.
\<close>

theorem split_validation_size:
  "length (snd (split_train_val draw seeded 10 50000)) = 45500 \<and>
   length (fst (split_train_val draw seeded 10 50000)) = 4500 \<and>
   set (fst (split_train_val draw seeded 10 50000))
     \<inter> set (snd (split_train_val draw seeded 10 50000)) = {} \<and>
   set (fst (split_train_val draw seeded 10 50000))
     \<union> set (snd (split_train_val draw seeded 10 50000)) = {0..<50000}"
proof -
  have p: "(0::int) \<le> 10" by simp
  have k: "nat ((10 * int 50000) div 100 - (10 * int 50000) div 100 div 10) = 4500" by simp
  have l: "length (snd (split_train_val draw seeded 10 50000)) = 50000 - 4500"
    using split_train_val_sets(1) [OF p, of draw seeded 50000] unfolding k .
  have f: "length (fst (split_train_val draw seeded 10 50000)) = min (length (shuffle draw (seeded 10) [0..<50000])) 4500"
    unfolding split_train_val_eq [OF p] fst_conv k by (rule length_take)
  have f': "length (fst (split_train_val draw seeded 10 50000)) = 4500"
    unfolding f shuffle_upt(1) by simp
  from l have l': "length (snd (split_train_val draw seeded 10 50000)) = 45500" by simp
  from l' f' split_train_val_sets(2) [OF p, of draw seeded 50000]
    split_train_val_sets(3) [OF p, of draw seeded 50000]
  show ?thesis by blast
qed

subsection \<open>Facts about the signal handlers\<close>

text \<open>
  C10. \<open>main\<close> changes the handler table exactly when \<open>SLURM_JOB_ID\<close> is in the
  environment, and then installs a handler for SIGUSR1 and one for SIGTERM. With them
  installed, SIGUSR1 runs \<open>scontrol requeue\<close> on the job id and then exits, and SIGTERM
  does nothing.
\<close>

theorem slurm_signal_handlers:
  "(''SLURM_JOB_ID'' \<notin> dom environ \<longrightarrow> install_handlers environ table = table) \<and>
   (''SLURM_JOB_ID'' \<in> dom environ \<longrightarrow>
      install_handlers environ table SIGUSR1 = Some Handle_sigusr1
      \<and> install_handlers environ table SIGTERM = Some Handle_sigterm) \<and>
   (install_handlers environ Map.empty \<noteq> Map.empty \<longleftrightarrow> ''SLURM_JOB_ID'' \<in> dom environ) \<and>
   (environ ''SLURM_JOB_ID'' = Some job \<longrightarrow>
      receive (install_handlers environ table) environ SIGUSR1
        = Some [System (''scontrol requeue '' @ job), Exit]
      \<and> receive (install_handlers environ table) environ SIGTERM = Some [])"
proof -
  have a: "''SLURM_JOB_ID'' \<notin> dom environ \<longrightarrow> install_handlers environ table = table"
    by (simp add: install_handlers_def)
  have b: "''SLURM_JOB_ID'' \<in> dom environ \<longrightarrow>
      install_handlers environ table SIGUSR1 = Some Handle_sigusr1
      \<and> install_handlers environ table SIGTERM = Some Handle_sigterm"
    unfolding install_handlers_def by (cases "''SLURM_JOB_ID'' \<in> dom environ") simp_all
  have c: "install_handlers environ Map.empty \<noteq> Map.empty \<longleftrightarrow> ''SLURM_JOB_ID'' \<in> dom environ"
    unfolding install_handlers_def by (cases "''SLURM_JOB_ID'' \<in> dom environ") simp_all
  have d: "environ ''SLURM_JOB_ID'' = Some job \<longrightarrow>
      receive (install_handlers environ table) environ SIGUSR1
        = Some [System (''scontrol requeue '' @ job), Exit]
      \<and> receive (install_handlers environ table) environ SIGTERM = Some []"
  proof
    assume j: "environ ''SLURM_JOB_ID'' = Some job"
    then have "''SLURM_JOB_ID'' \<in> dom environ" by (rule domI)
    with b have "install_handlers environ table SIGUSR1 = Some Handle_sigusr1"
      and "install_handlers environ table SIGTERM = Some Handle_sigterm" by blast+
    then show "receive (install_handlers environ table) environ SIGUSR1
        = Some [System (''scontrol requeue '' @ job), Exit]
      \<and> receive (install_handlers environ table) environ SIGTERM = Some []"
      by (simp add: receive_def run_handler_def handle_sigusr1_def handle_sigterm_def j)
  qed
  from a b c d show ?thesis by blast
qed

theorem slurm_signal_handlers_witness:
  "receive (install_handlers [''SLURM_JOB_ID'' \<mapsto> ''4242''] Map.empty)
      [''SLURM_JOB_ID'' \<mapsto> ''4242''] SIGUSR1
     = Some [System ''scontrol requeue 4242'', Exit] \<and>
   receive (install_handlers [''SLURM_JOB_ID'' \<mapsto> ''4242''] Map.empty)
      [''SLURM_JOB_ID'' \<mapsto> ''4242''] SIGTERM = Some [] \<and>
   install_handlers [''HOME'' \<mapsto> ''/root''] Map.empty = Map.empty"
proof -
  have 1: "[''SLURM_JOB_ID'' \<mapsto> ''4242''] ''SLURM_JOB_ID'' = Some ''4242''" by simp
  have 2: "''SLURM_JOB_ID'' \<notin> dom [''HOME'' \<mapsto> ''/root'']" by simp
  from slurm_signal_handlers [of "[''SLURM_JOB_ID'' \<mapsto> ''4242'']" Map.empty "''4242''"] 1
  have a: "receive (install_handlers [''SLURM_JOB_ID'' \<mapsto> ''4242''] Map.empty)
      [''SLURM_JOB_ID'' \<mapsto> ''4242''] SIGUSR1
     = Some [System (''scontrol requeue '' @ ''4242''), Exit] \<and>
   receive (install_handlers [''SLURM_JOB_ID'' \<mapsto> ''4242''] Map.empty)
      [''SLURM_JOB_ID'' \<mapsto> ''4242''] SIGTERM = Some []" by blast
  from slurm_signal_handlers [of "[''HOME'' \<mapsto> ''/root'']" Map.empty] 2
  have b: "install_handlers [''HOME'' \<mapsto> ''/root''] Map.empty = Map.empty" by blast
  from a b show ?thesis by simp
qed


end
